theory Spec2Isabelle
  imports Complex_Main "HOL-Library.Log_Nat"
begin

section \<open>Strings of the source language\<close>

text \<open>
  A JavaScript string is a sequence of code units. The model covers the texts whose
  code units are below 256 and writes each as one \<^typ>\<open>char\<close>; the character
  \<open>CHR 0x80\<close> stands for the code unit U+20AC, which the literal of
  \<open>raiseAltitude\<close> contains. No operation of the program treats either of the two
  specially, so the renaming changes no result.
\<close>

definition is_space :: "char \<Rightarrow> bool" where
  \<comment> \<open>the white space and line terminators of \<open>trim\<close> and of the class \<open>\\s\<close>\<close>
  "is_space c = (c \<in> set [CHR 0x09, CHR 0x0A, CHR 0x0B, CHR 0x0C, CHR 0x0D, CHR '' '', CHR 0xA0])"

fun is_word_char :: "char \<Rightarrow> bool" where
  \<comment> \<open>the class \<open>\\w\<close>, which decides \<open>\\b\<close>: the digits (0x30 to 0x39), the letters
     (0x41 to 0x5A and 0x61 to 0x7A) and the underscore (0x5F), read off the bits of
     the code unit, the lowest first\<close>
  "is_word_char (Char b0 b1 b2 b3 b4 b5 b6 b7) =
     (if b7 then False
      else if b6 then (if (b0 \<or> b1 \<or> b2 \<or> b3 \<or> b4) \<and> \<not> (b4 \<and> b3 \<and> (b2 \<or> (b1 \<and> b0))) then True
                       else (\<not> b5 \<and> b4 \<and> b3 \<and> b2 \<and> b1 \<and> b0))
      else (b5 \<and> b4 \<and> \<not> (b3 \<and> (b2 \<or> b1))))"

definition is_digit :: "char \<Rightarrow> bool" where
  "is_digit c = (c \<in> set ''0123456789'')"

definition is_line_terminator :: "char \<Rightarrow> bool" where
  "is_line_terminator c = (c = CHR 0x0A \<or> c = CHR 0x0D)"

fun lower_char :: "char \<Rightarrow> char" where
  \<comment> \<open>\<open>toLowerCase\<close> on one code unit below 256: the letters 0x41 to 0x5A and 0xC0 to
     0xDE without 0xD7 move up by 0x20\<close>
  "lower_char (Char b0 b1 b2 b3 b4 b5 b6 b7) =
     (if b6 \<and> \<not> b5 \<and>
         (if b7 then \<not> (b0 \<and> b1 \<and> b2 \<and> b4)
          else (b0 \<or> b1 \<or> b2 \<or> b3 \<or> b4) \<and> \<not> (b4 \<and> b3 \<and> (b2 \<or> (b1 \<and> b0))))
      then Char b0 b1 b2 b3 b4 True b6 b7
      else Char b0 b1 b2 b3 b4 b5 b6 b7)"

definition toLowerCase :: "string \<Rightarrow> string" where
  "toLowerCase s = map lower_char s"

fun ascii_fold :: "char \<Rightarrow> char" where
  \<comment> \<open>canonical form of a code unit under the flag \<open>i\<close>: a letter A to Z (0x41 to
     0x5A) is identified with its lower-case letter, and no other code unit with a
     letter of the (ASCII) patterns of this program\<close>
  "ascii_fold (Char b0 b1 b2 b3 b4 b5 b6 b7) =
     (if \<not> b7 \<and> b6 \<and> \<not> b5 \<and> (b0 \<or> b1 \<or> b2 \<or> b3 \<or> b4) \<and> \<not> (b4 \<and> b3 \<and> (b2 \<or> (b1 \<and> b0)))
      then Char b0 b1 b2 b3 b4 True b6 b7
      else Char b0 b1 b2 b3 b4 b5 b6 b7)"

definition trim :: "string \<Rightarrow> string" where
  "trim s = rev (dropWhile is_space (rev (dropWhile is_space s)))"

fun startsWith :: "string \<Rightarrow> string \<Rightarrow> bool" where
  "startsWith s [] = True"
| "startsWith [] (p # ps) = False"
| "startsWith (x # xs) (p # ps) = (if x = p then startsWith xs ps else False)"

fun includes_str :: "string \<Rightarrow> string \<Rightarrow> bool" where
  "includes_str [] p = (p = [])"
| "includes_str (x # xs) p = (if startsWith (x # xs) p then True else includes_str xs p)"

fun indexOf_from :: "nat \<Rightarrow> string \<Rightarrow> string \<Rightarrow> nat option" where
  "indexOf_from i [] p = (if p = [] then Some i else None)"
| "indexOf_from i (x # xs) p =
     (if startsWith (x # xs) p then Some i else indexOf_from (Suc i) xs p)"

definition indexOf :: "string \<Rightarrow> string \<Rightarrow> nat option" where
  \<comment> \<open>\<open>None\<close> is the result -1\<close>
  "indexOf s p = indexOf_from 0 s p"

fun join :: "string \<Rightarrow> string list \<Rightarrow> string" where
  "join sep [] = []"
| "join sep [x] = x"
| "join sep (x # y # ys) = x @ sep @ join sep (y # ys)"

section \<open>Regular expressions\<close>

text \<open>
  The patterns of the program use literals, character classes, bounded and unbounded
  repetition of a class (greedy or lazy), alternation, \<open>\\b\<close> and one negative
  lookahead. A backtracking matcher tries the alternatives in a fixed order of priority
  and returns the first that succeeds; \<open>rx\<close> lists every way to match at a position in
  that order, so its head is the match JavaScript reports. A position is the number
  of code units matched so far, the code unit before the position and the rest of the
  text.
\<close>

datatype cclass = Dot | Space | Digit | Not_char char | Any_of string

datatype regex =
    Lit string
  | Cls cclass
  | Rep cclass nat "nat option" bool
  | Seq regex regex
  | Alt regex regex
  | Word_boundary
  | Not_followed_by regex

type_synonym position = "nat \<times> char option \<times> string"

fun in_class :: "cclass \<Rightarrow> char \<Rightarrow> bool" where
  "in_class Dot c = (\<not> is_line_terminator c)"
| "in_class Space c = is_space c"
| "in_class Digit c = is_digit c"
| "in_class (Not_char d) c = (c \<noteq> d)"
| "in_class (Any_of ds) c = (c \<in> set ds)"

fun lit_match :: "bool \<Rightarrow> string \<Rightarrow> nat \<Rightarrow> char option \<Rightarrow> string \<Rightarrow> position list" where
  "lit_match ci [] n w s = [(n, w, s)]"
| "lit_match ci (p # ps) n w [] = []"
| "lit_match ci (p # ps) n w (x # xs) =
     (if (if ci then ascii_fold x = ascii_fold p else x = p)
      then lit_match ci ps (Suc n) (Some x) xs else [])"

fun class_run :: "cclass \<Rightarrow> nat option \<Rightarrow> nat \<Rightarrow> char option \<Rightarrow> string \<Rightarrow> position list" where
  \<comment> \<open>the positions after 0, 1, 2, ... code units of the class, at most \<open>mx\<close> of them\<close>
  "class_run c mx n w [] = [(n, w, [])]"
| "class_run c mx n w (x # xs) =
     (n, w, x # xs) #
     (if mx = Some 0 then []
      else if in_class c x
           then class_run c (map_option (\<lambda>m. m - 1) mx) (Suc n) (Some x) xs else [])"

definition word_before :: "char option \<Rightarrow> bool" where
  "word_before w = (case w of None \<Rightarrow> False | Some c \<Rightarrow> is_word_char c)"

definition word_after :: "string \<Rightarrow> bool" where
  "word_after s = (case s of [] \<Rightarrow> False | x # xs \<Rightarrow> is_word_char x)"

fun rx :: "bool \<Rightarrow> regex \<Rightarrow> position \<Rightarrow> position list" where
  "rx ci (Lit p) (n, w, s) = lit_match ci p n w s"
| "rx ci (Cls c) (n, w, s) =
     (case s of [] \<Rightarrow> [] | x # xs \<Rightarrow> if in_class c x then [(Suc n, Some x, xs)] else [])"
| "rx ci (Rep c mn mx greedy) (n, w, s) =
     (if greedy then rev (drop mn (class_run c mx n w s)) else drop mn (class_run c mx n w s))"
| "rx ci (Seq a b) (n, w, s) = concat (map (rx ci b) (rx ci a (n, w, s)))"
| "rx ci (Alt a b) (n, w, s) = rx ci a (n, w, s) @ rx ci b (n, w, s)"
| "rx ci Word_boundary (n, w, s) = (if word_before w = word_after s then [] else [(n, w, s)])"
| "rx ci (Not_followed_by a) (n, w, s) = (if rx ci a (n, w, s) = [] then [(n, w, s)] else [])"

definition match_here :: "bool \<Rightarrow> regex \<Rightarrow> char option \<Rightarrow> string \<Rightarrow> nat option" where
  \<comment> \<open>the length of the match that starts at this position, if there is one; the
     code unit before the position is \<open>w\<close>\<close>
  "match_here ci r w s = (case rx ci r (0, w, s) of [] \<Rightarrow> None | (n, w', s') # _ \<Rightarrow> Some n)"

fun test_from :: "bool \<Rightarrow> regex \<Rightarrow> char option \<Rightarrow> string \<Rightarrow> bool" where
  "test_from ci r w [] = (match_here ci r w [] \<noteq> None)"
| "test_from ci r w (x # xs) =
     (if match_here ci r w (x # xs) \<noteq> None then True else test_from ci r (Some x) xs)"

definition rx_test :: "bool \<Rightarrow> regex \<Rightarrow> string \<Rightarrow> bool" where
  \<comment> \<open>\<open>pattern.test(text)\<close> for a pattern without the flag \<open>g\<close>\<close>
  "rx_test ci r text = test_from ci r None text"

text \<open>
  A scan with the flag \<open>g\<close> cuts the text into the code units outside every match
  (\<open>Inl\<close>) and the matches (\<open>Inr\<close>), left to right. The counter is the number of
  code units of the current match still to be passed. After an empty match the scan
  moves on by one code unit.
\<close>

fun scan :: "bool \<Rightarrow> regex \<Rightarrow> nat \<Rightarrow> char option \<Rightarrow> string \<Rightarrow> (char + string) list" where
  "scan ci r k w [] =
     (if k = 0 \<and> match_here ci r w [] \<noteq> None then [Inr []] else [])"
| "scan ci r (Suc k) w (x # xs) = scan ci r k (Some x) xs"
| "scan ci r 0 w (x # xs) =
     (case match_here ci r w (x # xs) of
        None \<Rightarrow> Inl x # scan ci r 0 (Some x) xs
      | Some 0 \<Rightarrow> Inr [] # Inl x # scan ci r 0 (Some x) xs
      | Some (Suc n) \<Rightarrow> Inr (take (Suc n) (x # xs)) # scan ci r n (Some x) xs)"

fun hits :: "(char + string) list \<Rightarrow> string list" where
  "hits [] = []"
| "hits (Inl c # ts) = hits ts"
| "hits (Inr m # ts) = m # hits ts"

definition match_all :: "bool \<Rightarrow> regex \<Rightarrow> string \<Rightarrow> string list" where
  \<comment> \<open>\<open>text.match(pattern)\<close> with the flag \<open>g\<close>; the empty list is \<open>null\<close>\<close>
  "match_all ci r text = hits (scan ci r 0 None text)"

fun rebuild :: "(string \<Rightarrow> string) \<Rightarrow> (char + string) list \<Rightarrow> string" where
  "rebuild f [] = []"
| "rebuild f (Inl c # ts) = c # rebuild f ts"
| "rebuild f (Inr m # ts) = f m @ rebuild f ts"

definition replace_all :: "bool \<Rightarrow> regex \<Rightarrow> (string \<Rightarrow> string) \<Rightarrow> string \<Rightarrow> string" where
  \<comment> \<open>\<open>text.replace(pattern, f)\<close> with the flag \<open>g\<close>\<close>
  "replace_all ci r f text = rebuild f (scan ci r 0 None text)"

fun split_runs :: "(char \<Rightarrow> bool) \<Rightarrow> bool \<Rightarrow> string \<Rightarrow> string list" where
  "split_runs sep b [] = [[]]"
| "split_runs sep b (x # xs) =
     (if sep x then (if b then split_runs sep True xs else [] # split_runs sep True xs)
      else (case split_runs sep False xs of
              [] \<Rightarrow> [[x]]
            | p # ps \<Rightarrow> (x # p) # ps))"

definition split_on :: "(char \<Rightarrow> bool) \<Rightarrow> string \<Rightarrow> string list" where
  \<comment> \<open>\<open>text.split(/[...]+/)\<close>: the pieces between the maximal runs of separators, with
     an empty piece before a run at the start and after a run at the end\<close>
  "split_on sep text = split_runs sep False text"

fun seqs :: "regex list \<Rightarrow> regex" where
  "seqs [] = Lit []"
| "seqs [r] = r"
| "seqs (r # q # rs) = Seq r (seqs (q # rs))"

fun alts :: "regex list \<Rightarrow> regex" where
  "alts [] = Not_followed_by (Lit [])"
| "alts [r] = r"
| "alts (r # q # rs) = Alt r (alts (q # rs))"

definition lits :: "string list \<Rightarrow> regex" where
  \<comment> \<open>an alternation of literals, \<open>(a|b|c)\<close>\<close>
  "lits ws = alts (map Lit ws)"

definition some_test :: "bool \<Rightarrow> regex list \<Rightarrow> string \<Rightarrow> bool" where
  \<comment> \<open>\<open>patterns.some(p => p.test(text))\<close>\<close>
  "some_test ci ps text = list_ex (\<lambda>p. rx_test ci p text) ps"

section \<open>Numbers\<close>

text \<open>
  A JavaScript number is a double. Every arithmetic operation returns the double
  nearest to the exact result, ties to the even significand; \<open>rd\<close> is that rounding on
  the rationals (in the range of normal doubles, which the quantities of this program
  never leave). \<open>Math.round\<close> and \<open>Math.ceil\<close> are exact on a double.
\<close>

definition round_div :: "int \<Rightarrow> int \<Rightarrow> int" where
  \<comment> \<open>the integer nearest to \<open>a / b\<close> for \<open>0 < b\<close>, a tie going to the even one\<close>
  "round_div a b =
     (let f = a div b; r = a mod b
      in if 2 * r < b then f else if b < 2 * r then f + 1 else if even f then f else f + 1)"

definition binary_exponent :: "int \<Rightarrow> int \<Rightarrow> int" where
  \<comment> \<open>the integer \<open>e\<close> with \<open>2 ^ e \<le> |p| / q < 2 ^ (e + 1)\<close>, for \<open>p \<noteq> 0\<close> and \<open>0 < q\<close>\<close>
  "binary_exponent p q =
     (let d = bitlen \<bar>p\<bar> - bitlen q
      in if (if 0 \<le> d then q * 2 ^ nat d \<le> \<bar>p\<bar> else q \<le> \<bar>p\<bar> * 2 ^ nat (- d)) then d else d - 1)"

definition rd :: "rat \<Rightarrow> rat" where
  \<comment> \<open>the nearest number \<open>m * 2 ^ e\<close> with a significand \<open>m\<close> of 53 bits\<close>
  "rd x =
     (case quotient_of x of (p, q) \<Rightarrow>
        if p = 0 then 0
        else (let e = binary_exponent p q - 52
              in if 0 \<le> e then of_int (round_div p (q * 2 ^ nat e) * 2 ^ nat e)
                 else Fract (round_div (p * 2 ^ nat (- e)) q) (2 ^ nat (- e))))"

definition fadd :: "rat \<Rightarrow> rat \<Rightarrow> rat" where "fadd a b = rd (a + b)"
definition fsub :: "rat \<Rightarrow> rat \<Rightarrow> rat" where "fsub a b = rd (a - b)"
definition fmul :: "rat \<Rightarrow> rat \<Rightarrow> rat" where "fmul a b = rd (a * b)"
definition fdiv :: "rat \<Rightarrow> rat \<Rightarrow> rat" where "fdiv a b = rd (a / b)"

definition js_round :: "rat \<Rightarrow> int" where
  \<comment> \<open>\<open>Math.round\<close>: the nearest integer, a tie going up\<close>
  "js_round x = \<lfloor>x + 1 / 2\<rfloor>"

definition js_ceil :: "rat \<Rightarrow> int" where
  "js_ceil x = \<lceil>x\<rceil>"

section \<open>The analyzer\<close>

subsection \<open>The report\<close>

text \<open>
  The objects of the source are records. A property that \<open>getEmptyAnalysis\<close> leaves
  out of its object is \<open>None\<close> there; reading it gives \<open>undefined\<close>, which is falsy.
\<close>

datatype altitude = Too_low | Too_high | Just_right | Unknown

record components =
  role :: "bool option"
  tone :: "bool option"
  background :: "bool option"
  task :: "bool option"
  examples :: "bool option"
  chainOfThought :: "bool option"
  outputFormat :: "bool option"
  constraints :: "bool option"
  prefill :: "bool option"
  xmlStructure :: "bool option"
  presentCount :: int
  missingCount :: int
  components_score :: rat
  missing :: "string list"

record tokenEfficiency =
  total_tokens :: int
  useful_tokens :: int
  efficiency :: int
  efficiency_rating :: string

record signalDensity =
  density :: int
  highValueCount :: "int option"
  fillerCount :: "int option"
  density_rating :: string

record redundancy =
  redundancy_score :: int
  redundancy_level :: string

record contextEngineering =
  tokenEfficiency :: tokenEfficiency
  signalDensity :: signalDensity
  altitude :: altitude
  redundancy :: redundancy

record modelFit =
  compatibility :: int
  strengths :: "string list"
  issues :: "string list"
  model_name :: "string option"

record rating =
  label :: string
  color :: string

record breakdown =
  breakdown_components :: rat
  breakdown_efficiency :: rat
  breakdown_altitude :: rat
  breakdown_modelFit :: rat

record overallScore =
  score :: rat
  maxScore :: int
  overall_rating :: rating
  breakdown :: "breakdown option"

record report =
  tokenCount :: int
  components :: components
  contextEngineering :: contextEngineering
  modelFit :: modelFit
  overallScore :: overallScore

definition truthy :: "bool option \<Rightarrow> bool" where
  "truthy v = (v = Some True)"

subsection \<open>Token counting\<close>

definition word_count :: "string \<Rightarrow> int" where
  \<comment> \<open>\<open>text.trim().split(/\\s+/).length\<close>\<close>
  "word_count text = int (length (split_on is_space (trim text)))"

definition countTokens :: "string \<Rightarrow> int" where
  "countTokens text =
     (let words = word_count text;
          chars = int (length text);
          byChars = js_ceil (fdiv (of_int chars) (7 / 2));
          byWords = js_ceil (fdiv (of_int words) (3 / 4))
      in js_round (fdiv (of_int (byChars + byWords)) 2))"

subsection \<open>The ten components\<close>

definition any_dots :: "nat \<Rightarrow> nat option \<Rightarrow> regex" where
  \<comment> \<open>\<open>.{m,n}\<close>, greedy\<close>
  "any_dots m n = Rep Dot m n True"

definition hasRole :: "string \<Rightarrow> bool" where
  "hasRole text = some_test True
     [Lit ''[ROLE]'',
      seqs [Lit ''you are '', lits [''a'', ''an''], Lit '' '', any_dots 3 (Some 50), Lit '' '',
            lits [''expert'', ''specialist'', ''assistant'', ''professional'']],
      seqs [Lit ''act as '', lits [''a'', ''an'']],
      Lit ''your role is''] text"

definition toneWords :: "string list" where
  "toneWords = [''professional'', ''casual'', ''formal'', ''friendly'', ''technical'',
                ''conversational'', ''academic'', ''creative'']"

definition hasTone :: "string \<Rightarrow> bool" where
  "hasTone text = rx_test True
     (seqs [lits [''tone'', ''style'', ''voice''], any_dots 0 (Some 20), lits toneWords]) text"

definition hasBackground :: "string \<Rightarrow> bool" where
  "hasBackground text = some_test True
     [Lit ''[BACKGROUND]'', Lit ''[CONTEXT]'', Lit ''background:'', Lit ''context:'',
      Lit ''given that''] text"

definition taskVerbs :: "string list" where
  "taskVerbs = [''write'', ''create'', ''analyze'', ''generate'', ''explain'', ''summarize'',
                ''evaluate'', ''design'', ''build'', ''help'']"

definition hasTask :: "string \<Rightarrow> bool" where
  "hasTask text = rx_test True
     (seqs [Word_boundary, lits taskVerbs, Word_boundary, any_dots 5 None]) text"

definition hasExamples :: "string \<Rightarrow> bool" where
  "hasExamples text = some_test True
     [Lit ''[EXAMPLE]'', Lit ''for example'', Lit ''e.g.'', Lit ''such as:'', Lit ''example:''] text"

definition hasChainOfThought :: "string \<Rightarrow> bool" where
  "hasChainOfThought text = some_test True
     [seqs [Lit ''think step'', any_dots 0 (Some 10), Lit ''step''],
      Lit ''thinking'',
      Lit ''reason through'',
      seqs [Lit ''analyze'', any_dots 0 (Some 10), Lit ''before''],
      seqs [Lit ''first'', any_dots 0 None, Lit ''then'']] text"

definition hasOutputFormat :: "string \<Rightarrow> bool" where
  "hasOutputFormat text = some_test True
     [Lit ''[OUTPUT]'',
      Lit ''[FORMAT]'',
      seqs [Lit ''output'', any_dots 0 (Some 20), lits [''format'', ''should be'', ''must be'']],
      seqs [Lit ''format'', any_dots 0 (Some 20), Lit '':''],
      lits [''json'', ''markdown'', ''html'', ''csv'']] text"

definition hasConstraints :: "string \<Rightarrow> bool" where
  "hasConstraints text = some_test True
     [Lit ''[CONSTRAINTS]'',
      Lit ''[REQUIREMENTS]'',
      seqs [Lit ''must '', lits [''not'', ''never'', ''always'']],
      seqs [Lit ''should '', lits [''not'', ''never'', ''always'']],
      Lit ''do not''] text"

definition hasPrefill :: "string \<Rightarrow> bool" where
  "hasPrefill text = (if includes_str text ''[OUTPUT]:'' then True else includes_str text ''Begin with:'')"

definition xml_tag :: regex where
  \<comment> \<open>\<open><[^>]+>\<close>\<close>
  "xml_tag = seqs [Lit ''<'', Rep (Not_char CHR ''>'') 1 None True, Lit ''>'']"

definition hasXMLStructure :: "string \<Rightarrow> bool" where
  "hasXMLStructure text = rx_test False xml_tag text"

definition component_names :: "string list" where
  "component_names = [''Role/Persona'', ''Tone Context'', ''Background Data'', ''Task Description'',
     ''Examples'', ''Chain-of-Thought'', ''Output Format'', ''Constraints'', ''Response Prefill'',
     ''XML Structure'']"

definition listMissingComponents :: "bool list \<Rightarrow> string list" where
  \<comment> \<open>the flags in the order of the object's keys, which is the order of the names\<close>
  "listMissingComponents flags =
     map snd (filter (\<lambda>(v, n). v = False) (zip flags component_names))"

definition component_flags :: "string \<Rightarrow> bool list" where
  "component_flags text =
     [hasRole text, hasTone text, hasBackground text, hasTask text, hasExamples text,
      hasChainOfThought text, hasOutputFormat text, hasConstraints text, hasPrefill text,
      hasXMLStructure text]"

definition analyzeComponents :: "string \<Rightarrow> components" where
  "analyzeComponents text =
     (let present = int (length (filter (\<lambda>v. v) (component_flags text)));
          missing_n = 10 - present
      in \<lparr> role = Some (hasRole text), tone = Some (hasTone text),
           background = Some (hasBackground text), task = Some (hasTask text),
           examples = Some (hasExamples text), chainOfThought = Some (hasChainOfThought text),
           outputFormat = Some (hasOutputFormat text), constraints = Some (hasConstraints text),
           prefill = Some (hasPrefill text), xmlStructure = Some (hasXMLStructure text),
           presentCount = present,
           missingCount = missing_n,
           components_score = fmul (fdiv (of_int present) 10) 100,
           missing = listMissingComponents (component_flags text) \<rparr>)"

subsection \<open>Context engineering\<close>

definition highSignalPatterns :: "(bool \<times> regex) list" where
  \<comment> \<open>each pattern with its flag \<open>i\<close>\<close>
  "highSignalPatterns =
     [(True, lits [''must'', ''never'', ''always'', ''required'', ''specifically'', ''exactly'']),
      (True, lits [''format:'', ''output:'', ''structure:'', ''style:'']),
      (True, lits [''example:'', ''e.g.'', ''for instance:'']),
      (False, xml_tag),
      (False, seqs [Lit ''['', Rep (Not_char CHR '']'') 1 None True, Lit '']''])]"

definition countHighSignalTokens :: "string \<Rightarrow> int" where
  "countHighSignalTokens text =
     (let highSignalChars =
            sum_list (map (\<lambda>(ci, pattern). sum_list (map length (match_all ci pattern text)))
                          highSignalPatterns)
      in js_ceil (fdiv (of_nat highSignalChars) (7 / 2)))"

definition rateEfficiency :: "rat \<Rightarrow> string" where
  "rateEfficiency e =
     (if 85 \<le> e then ''excellent'' else if 70 \<le> e then ''good''
      else if 50 \<le> e then ''fair'' else ''poor'')"

definition calculateTokenEfficiency :: "string \<Rightarrow> tokenEfficiency" where
  "calculateTokenEfficiency text =
     (let total = countTokens text;
          useful = countHighSignalTokens text;
          eff = (if 0 < total then fmul (fdiv (of_int useful) (of_int total)) 100 else 0)
      in \<lparr> total_tokens = total, useful_tokens = useful, efficiency = js_round eff,
           efficiency_rating = rateEfficiency eff \<rparr>)"

definition rateDensity :: "rat \<Rightarrow> string" where
  "rateDensity d = (if 80 \<le> d then ''high'' else if 60 \<le> d then ''medium'' else ''low'')"

definition starts_with_pattern :: "regex \<Rightarrow> string \<Rightarrow> bool" where
  \<comment> \<open>\<open>/^(...)/i.test(word)\<close>\<close>
  "starts_with_pattern r word = (match_here True r None word \<noteq> None)"

definition calculateSignalDensity :: "string \<Rightarrow> signalDensity" where
  "calculateSignalDensity text =
     (let words = split_on is_space (trim text);
          totalWords = int (length words);
          highValueWords = int (length (filter (starts_with_pattern
            (lits [''must'', ''never'', ''always'', ''required'', ''specific'', ''exact'', ''only'',
                   ''format'', ''output'', ''constraint''])) words));
          fillerWords = int (length (filter (starts_with_pattern
            (lits [''very'', ''really'', ''quite'', ''basically'', ''actually'', ''literally'',
                   ''perhaps'', ''maybe'', ''possibly''])) words));
          d = (if 0 < totalWords
               then fadd (fmul (fdiv (of_int (highValueWords - fillerWords)) (of_int totalWords)) 100) 50
               else 50)
      in \<lparr> density = max 0 (min 100 (js_round d)),
           highValueCount = Some highValueWords,
           fillerCount = Some fillerWords,
           density_rating = rateDensity d \<rparr>)"

definition lowMarkers :: "regex list" where
  "lowMarkers =
     [seqs [Lit ''if '', any_dots 5 (Some 30), Lit '' then''],
      seqs [Lit ''when '', any_dots 5 (Some 30), Lit '' do''],
      seqs [Lit ''step '', Rep Digit 1 None True, Lit '':''],
      seqs [Lit ''first '', any_dots 5 (Some 20), Lit '' second '', any_dots 5 (Some 20),
            Lit '' third'']]"

definition highMarkers :: "regex list" where
  "highMarkers =
     [Lit ''be helpful'', Lit ''do your best'', Lit ''be creative'', Lit ''be good'',
      seqs [Lit ''be professional'', Not_followed_by (seqs [Lit '' '', any_dots 5 None])]]"

definition goodMarkers :: "regex list" where
  "goodMarkers =
     [Lit ''focus on'', Lit ''prioritize'', Lit ''ensure that'',
      seqs [Lit ''when '', lits [''analyzing'', ''writing'', ''creating'', ''reviewing'']],
      seqs [Lit ''must '', lits [''include'', ''contain'', ''have'', ''follow'']]]"

definition marker_count :: "regex list \<Rightarrow> string \<Rightarrow> nat" where
  \<comment> \<open>the matches of all patterns of one family, every pattern with the flags \<open>gi\<close>\<close>
  "marker_count markers text = sum_list (map (\<lambda>pattern. length (match_all True pattern text)) markers)"

definition detectAltitude :: "string \<Rightarrow> altitude" where
  "detectAltitude text =
     (let lowScore = marker_count lowMarkers text;
          highScore = marker_count highMarkers text;
          goodScore = marker_count goodMarkers text
      in if 2 < lowScore then Too_low
         else if 2 < highScore \<and> goodScore < 2 then Too_high
         else Just_right)"

definition is_terminator :: "char \<Rightarrow> bool" where
  \<comment> \<open>the class \<open>[.!?]\<close>\<close>
  "is_terminator c = (c \<in> set ''.!?'')"

fun sentence_phrases :: "string list \<Rightarrow> string list \<Rightarrow> nat \<Rightarrow> string list \<times> nat" where
  \<comment> \<open>the loop over \<open>i\<close>: the words from \<open>i\<close> on, the phrases seen, the repeats counted\<close>
  "sentence_phrases (a # b # c # ws) phrases n =
     (let phrase = join '' '' [a, b, c]
      in if phrase \<in> set phrases then sentence_phrases (b # c # ws) phrases (n + 1)
         else sentence_phrases (b # c # ws) (phrases @ [phrase]) n)"
| "sentence_phrases ws phrases n = (phrases, n)"

fun all_phrases :: "string list \<Rightarrow> string list \<Rightarrow> nat \<Rightarrow> nat" where
  "all_phrases [] phrases n = n"
| "all_phrases (sentence # rest) phrases n =
     (case sentence_phrases (split_on is_space (toLowerCase (trim sentence))) phrases n of
        (phrases', n') \<Rightarrow> all_phrases rest phrases' n')"

definition detectRedundancy :: "string \<Rightarrow> redundancy" where
  "detectRedundancy text =
     (let sentences = filter (\<lambda>s. trim s \<noteq> []) (split_on is_terminator text);
          redundantPhrases = int (all_phrases sentences [] 0)
      in \<lparr> redundancy_score = redundantPhrases,
           redundancy_level = (if 3 < redundantPhrases then ''high''
                               else if 1 < redundantPhrases then ''medium'' else ''low'') \<rparr>)"

definition analyzeContextEngineering :: "string \<Rightarrow> contextEngineering" where
  "analyzeContextEngineering text =
     \<lparr> tokenEfficiency = calculateTokenEfficiency text,
       signalDensity = calculateSignalDensity text,
       altitude = detectAltitude text,
       redundancy = detectRedundancy text \<rparr>"

subsection \<open>Dispatch on a string key\<close>

text \<open>
  \<open>table[key]\<close> on an object literal finds the literal's own properties and the
  properties every object inherits from \<open>Object.prototype\<close>: its methods, and the
  object \<open>Object.prototype\<close> itself under the key \<open>__proto__\<close>. All of them are
  truthy, so \<open>table[key] || fallback\<close> takes the fallback only for a key that is
  neither. Calling \<open>.call\<close> on \<open>Object.prototype\<close> raises a TypeError, since it has no
  such property. Where an inherited method runs in place of a function of the table,
  the model stops and says which one.
\<close>

datatype failure = TypeError | Inherited_member string

datatype 'a slot = Own 'a | Proto_object | Proto_method string | Undefined

definition object_prototype_methods :: "string list" where
  "object_prototype_methods =
     [''constructor'', ''__defineGetter__'', ''__defineSetter__'', ''hasOwnProperty'',
      ''__lookupGetter__'', ''__lookupSetter__'', ''isPrototypeOf'', ''propertyIsEnumerable'',
      ''toString'', ''valueOf'', ''toLocaleString'']"

definition lookup_property :: "(string \<times> 'a) list \<Rightarrow> string \<Rightarrow> 'a slot" where
  "lookup_property table key =
     (case map_of table key of
        Some v \<Rightarrow> Own v
      | None \<Rightarrow> if key = ''__proto__'' then Proto_object
                else if key \<in> set object_prototype_methods then Proto_method key
                else Undefined)"

definition dispatch :: "(string \<times> 'a) list \<Rightarrow> 'a \<Rightarrow> string \<Rightarrow> failure + 'a" where
  \<comment> \<open>\<open>(table[key] || fallback).call\<close>, up to the call itself\<close>
  "dispatch table fallback key =
     (case lookup_property table key of
        Own f \<Rightarrow> Inr f
      | Undefined \<Rightarrow> Inr fallback
      | Proto_object \<Rightarrow> Inl TypeError
      | Proto_method n \<Rightarrow> Inl (Inherited_member n))"

subsection \<open>Model fit\<close>

definition lower_includes_any :: "string list \<Rightarrow> string \<Rightarrow> bool" where
  \<comment> \<open>\<open>words.some(word => text.toLowerCase().includes(word))\<close>\<close>
  "lower_includes_any ws text = list_ex (\<lambda>word. includes_str (toLowerCase text) word) ws"

definition isCreativeTask :: "string \<Rightarrow> bool" where
  "isCreativeTask text = lower_includes_any
     [''write'', ''create'', ''design'', ''imagine'', ''story'', ''poem'', ''article'', ''blog''] text"

definition isAnalyticalTask :: "string \<Rightarrow> bool" where
  "isAnalyticalTask text = lower_includes_any
     [''analyze'', ''evaluate'', ''assess'', ''compare'', ''review'', ''examine''] text"

definition hasExplicitRequest :: "string \<Rightarrow> bool" where
  "hasExplicitRequest text = some_test True
     [Lit ''go beyond'', Lit ''comprehensive'',
      seqs [Lit ''fully'', any_dots 0 (Some 10), Lit ''featured''],
      Lit ''extensive'', Lit ''thorough''] text"

definition has_thinking_tag :: "string \<Rightarrow> bool" where
  \<comment> \<open>\<open>/<thinking>/i.test(text)\<close>\<close>
  "has_thinking_tag text = rx_test True (Lit ''<thinking>'') text"

definition compatibility_of :: "string list \<Rightarrow> int" where
  "compatibility_of iss = max 0 (100 - int (length iss) * 15)"

definition analyzeClaudeFit :: "string \<Rightarrow> modelFit" where
  \<open>analyzeClaudeFit text =
     (let iss =
            (if isCreativeTask text \<and> \<not> hasExplicitRequest text
             then [''Add explicit "go beyond basics" request for creative tasks''] else []) @
            (if 200 < length text \<and> \<not> includes_str (toLowerCase text) ''because''
             then [''Add motivation/context for better Claude 4.x performance''] else []) @
            (if isAnalyticalTask text \<and> \<not> has_thinking_tag text
             then [''Consider adding <thinking> block for analytical tasks''] else []);
          str = (if hasExamples text
                 then [''Has examples (Claude 4.x pays close attention)''] else [])
      in \<lparr> compatibility = compatibility_of iss, strengths = str, issues = iss,
           model_name = Some ''Claude 4.5'' \<rparr>)\<close>

definition analyzeGPTFit :: "string \<Rightarrow> modelFit" where
  "analyzeGPTFit text =
     (let iss =
            (if \<not> hasChainOfThought text then [''Add step-by-step reasoning request''] else []) @
            (if \<not> hasOutputFormat text
             then [''GPT performs better with explicit format specification''] else [])
      in \<lparr> compatibility = compatibility_of iss, strengths = [], issues = iss,
           model_name = Some ''GPT-5'' \<rparr>)"

definition analyzeGeminiFit :: "string \<Rightarrow> modelFit" where
  "analyzeGeminiFit text =
     (let iss =
            (if \<not> includes_str (toLowerCase text) ''context'' \<and> length text < 100
             then [''Add context/grounding for Gemini''] else []) @
            (if \<not> hasConstraints text then [''Gemini benefits from explicit boundaries''] else [])
      in \<lparr> compatibility = compatibility_of iss, strengths = [], issues = iss,
           model_name = Some ''Gemini 3'' \<rparr>)"

definition modelAnalyzers :: "(string \<times> (string \<Rightarrow> modelFit)) list" where
  "modelAnalyzers =
     [(''claude'', analyzeClaudeFit), (''gpt'', analyzeGPTFit), (''gemini'', analyzeGeminiFit)]"

definition analyzeModelFit :: "string \<Rightarrow> string \<Rightarrow> failure + modelFit" where
  "analyzeModelFit text model_key =
     (case dispatch modelAnalyzers analyzeClaudeFit model_key of
        Inl e \<Rightarrow> Inl e
      | Inr analyzer \<Rightarrow> Inr (analyzer text))"

subsection \<open>Overall score\<close>

definition getScoreRating :: "rat \<Rightarrow> rating" where
  "getScoreRating x =
     (if 9 \<le> x then \<lparr> label = ''Excellent'', color = ''#10b981'' \<rparr>
      else if 15 / 2 \<le> x then \<lparr> label = ''Very Good'', color = ''#3b82f6'' \<rparr>
      else if 6 \<le> x then \<lparr> label = ''Good'', color = ''#8b5cf6'' \<rparr>
      else if 4 \<le> x then \<lparr> label = ''Fair'', color = ''#f59e0b'' \<rparr>
      else \<lparr> label = ''Needs Work'', color = ''#ef4444'' \<rparr>)"

definition weighted_score :: "rat \<Rightarrow> rat \<Rightarrow> rat \<Rightarrow> rat \<Rightarrow> rat" where
  \<comment> \<open>the weights are the doubles nearest to 0.30, 0.25, 0.25 and 0.20\<close>
  "weighted_score componentScore efficiencyScore altitudeScore modelScore =
     fadd (fadd (fadd (fmul componentScore (rd (3 / 10))) (fmul efficiencyScore (1 / 4)))
                (fmul altitudeScore (1 / 4)))
          (fmul modelScore (rd (1 / 5)))"

definition calculateOverallScore :: "string \<Rightarrow> string \<Rightarrow> failure + overallScore" where
  "calculateOverallScore text model_key =
     (let comps = analyzeComponents text;
          contextEng = analyzeContextEngineering text
      in case analyzeModelFit text model_key of
           Inl e \<Rightarrow> Inl e
         | Inr fit \<Rightarrow>
             (let componentScore = fdiv (components_score comps) 10;
                  efficiencyScore = fdiv (of_int (efficiency (tokenEfficiency contextEng))) 10;
                  altitudeScore = (if altitude contextEng = Just_right then 10
                                   else if altitude contextEng = Too_high then 5 else 3);
                  modelScore = fdiv (of_int (compatibility fit)) 10;
                  weighted = weighted_score componentScore efficiencyScore altitudeScore modelScore
              in Inr \<lparr> score = fdiv (of_int (js_round (fmul weighted 10))) 10,
                       maxScore = 10,
                       overall_rating = getScoreRating weighted,
                       breakdown = Some \<lparr> breakdown_components = componentScore,
                                          breakdown_efficiency = efficiencyScore,
                                          breakdown_altitude = altitudeScore,
                                          breakdown_modelFit = modelScore \<rparr> \<rparr>))"

subsection \<open>The entry point\<close>

definition getEmptyAnalysis :: report where
  "getEmptyAnalysis =
     \<lparr> tokenCount = 0,
       components = \<lparr> role = None, tone = None, background = None, task = None, examples = None,
                      chainOfThought = None, outputFormat = None, constraints = None,
                      prefill = None, xmlStructure = None,
                      presentCount = 0, missingCount = 10, components_score = 0, missing = [] \<rparr>,
       contextEngineering =
         \<lparr> tokenEfficiency = \<lparr> total_tokens = 0, useful_tokens = 0, efficiency = 0,
                               efficiency_rating = ''poor'' \<rparr>,
           signalDensity = \<lparr> density = 0, highValueCount = None, fillerCount = None,
                             density_rating = ''low'' \<rparr>,
           altitude = Unknown,
           redundancy = \<lparr> redundancy_score = 0, redundancy_level = ''low'' \<rparr> \<rparr>,
       modelFit = \<lparr> compatibility = 0, strengths = [], issues = [], model_name = None \<rparr>,
       overallScore = \<lparr> score = 0, maxScore = 10,
                        overall_rating = \<lparr> label = ''Waiting'', color = ''#6b7280'' \<rparr>,
                        breakdown = None \<rparr> \<rparr>"

definition analyze :: "string \<Rightarrow> string \<Rightarrow> failure + report" where
  \<comment> \<open>the properties of the result are computed in the order written; the first
     call that raises ends the whole call\<close>
  "analyze text model_key =
     (if text = [] \<or> length (trim text) = 0 then Inr getEmptyAnalysis
      else case analyzeModelFit text model_key of
             Inl e \<Rightarrow> Inl e
           | Inr fit \<Rightarrow>
               (case calculateOverallScore text model_key of
                  Inl e \<Rightarrow> Inl e
                | Inr overall \<Rightarrow>
                    Inr \<lparr> tokenCount = countTokens text,
                          components = analyzeComponents text,
                          contextEngineering = analyzeContextEngineering text,
                          modelFit = fit,
                          overallScore = overall \<rparr>))"

section \<open>The optimizer\<close>

subsection \<open>Results and the fields of the optimizer object\<close>

record technique =
  name :: string
  description :: string
  impact :: string

record options =
  format :: "string option"
  concise :: bool
  noPreamble :: bool
  showThinking :: bool

record improvements =
  scoreChange :: rat
  scorePercent :: int
  efficiencyChange :: int
  tokenChange :: int
  tokenPercent :: int
  costPerCall :: string
  costPer1000 :: string
  costPerYear :: string
  isBetter :: bool

record result =
  original :: string
  optimized :: string
  techniques :: "technique list"
  improvements :: improvements
  newAnalysis :: report

text \<open>
  \<open>optimize\<close> stores its arguments and its list of techniques in fields of the
  object \<open>PromptOptimizer\<close>, and the stages read and extend them there. The record
  \<open>opt_state\<close> holds these fields; every stage takes it and returns it.
\<close>

record opt_state =
  this_originalPrompt :: string
  this_analysis :: report
  this_model :: string
  this_level :: string
  this_options :: options
  this_techniques :: "technique list"

definition push_technique :: "technique \<Rightarrow> opt_state \<Rightarrow> opt_state" where
  \<comment> \<open>\<open>this.techniques.push(...)\<close>\<close>
  "push_technique t s = s\<lparr> this_techniques := this_techniques s @ [t] \<rparr>"

fun show_nat :: "nat \<Rightarrow> string" where
  \<comment> \<open>a number inside a template literal\<close>
  "show_nat n =
     (if n < 10 then [''0123456789'' ! n]
      else show_nat (n div 10) @ [''0123456789'' ! (n mod 10)])"

subsection \<open>Stages 1 and 2\<close>

fun keep_first :: "string list \<Rightarrow> string list \<Rightarrow> nat \<Rightarrow> string list \<times> nat" where
  \<comment> \<open>the filter over the sentences, with the set \<open>seen\<close> and the counter \<open>removed\<close>\<close>
  "keep_first [] seen removed = ([], removed)"
| "keep_first (sentence # rest) seen removed =
     (let lower = toLowerCase sentence
      in if lower \<in> set seen then keep_first rest seen (removed + 1)
         else (case keep_first rest (lower # seen) removed of
                 (unique, removed') \<Rightarrow> (sentence # unique, removed')))"

definition fillers :: regex where
  \<comment> \<open>\<open>\\b(very|really|...)\\b\\s*\<close>, used with the flags \<open>gi\<close>\<close>
  "fillers =
     seqs [Word_boundary,
           lits [''very'', ''really'', ''quite'', ''basically'', ''actually'', ''literally'',
                 ''perhaps'', ''maybe'', ''possibly''],
           Word_boundary, Rep Space 0 None True]"

definition sentences_of :: "string \<Rightarrow> string list" where
  \<comment> \<open>\<open>text.split(/[.!?]+/).map(s => s.trim()).filter(s => s)\<close>\<close>
  "sentences_of text = filter (\<lambda>x. x \<noteq> []) (map trim (split_on is_terminator text))"

definition dedupe_sentences :: "string \<Rightarrow> string list \<times> nat" where
  "dedupe_sentences text = keep_first (sentences_of text) [] 0"

definition dedupe_text :: "string \<Rightarrow> string \<times> nat" where
  \<comment> \<open>the first half of \<open>removeRedundancy\<close>: the text without its repeated sentences,
     and how many were removed\<close>
  "dedupe_text text =
     (case dedupe_sentences text of (unique, removed) \<Rightarrow>
        (if 0 < removed then join ''. '' unique @ ''.'' else text, removed))"

definition removeRedundancy :: "string \<Rightarrow> opt_state \<Rightarrow> string \<times> opt_state" where
  "removeRedundancy text s =
     (case dedupe_text text of (result, removed) \<Rightarrow>
        (let s1 = (if 0 < removed
                   then push_technique
                          \<lparr> name = ''Redundancy Removal'',
                            description = ''Removed '' @ show_nat removed @ '' repeated sentence(s)'',
                            impact = ''Token efficiency improved'' \<rparr> s
                   else s);
             fillerMatches = match_all True fillers result
         in if fillerMatches \<noteq> []
            then (replace_all True fillers (\<lambda>m. []) result,
                  push_technique
                    \<lparr> name = ''Filler Word Removal'',
                      description = ''Removed '' @ show_nat (length fillerMatches) @ '' filler word(s)'',
                      impact = ''Signal density increased'' \<rparr> s1)
            else (result, s1)))"

definition improveClarity :: "string \<Rightarrow> string" where
  \<comment> \<open>\<open>result.replace(/\\s+and\\s+/g, ' and ')\<close>\<close>
  "improveClarity text =
     replace_all False (seqs [Rep Space 1 None True, Lit ''and'', Rep Space 1 None True])
                 (\<lambda>m. '' and '') text"

subsection \<open>Stage 3: the framework sections\<close>

definition inferRole :: "string \<Rightarrow> string" where
  "inferRole text =
     (let lower = toLowerCase text
      in if includes_str lower ''code'' \<or> includes_str lower ''program''
         then ''You are a Senior Software Engineer with expertise in writing clean, production-ready code''
         else if includes_str lower ''write'' \<or> includes_str lower ''article''
         then ''You are an expert writer skilled at crafting clear, engaging content''
         else if includes_str lower ''analyze'' \<or> includes_str lower ''data''
         then ''You are a Data Analyst with expertise in extracting insights from information''
         else if includes_str lower ''design''
         then ''You are a UX/UI Designer with expertise in user-centered design''
         else ''You are an expert assistant focused on delivering high-quality, accurate responses'')"

definition formatMap :: "(string \<times> string) list" where
  "formatMap =
     [(''standard'', ''Markdown format with clear structure''),
      (''structured'', ''Highly structured with sections and subsections''),
      (''article'', ''Article-style prose with paragraphs''),
      (''bullets'', ''Concise bullet points''),
      (''data'', ''Valid JSON format'')]"

definition format_description :: "options \<Rightarrow> failure + string" where
  \<comment> \<open>\<open>formatMap[this.options.format || 'standard']\<close> inside the template literal: a
     key that is absent prints as \<open>undefined\<close>, the object \<open>Object.prototype\<close> as
     \<open>[object Object]\<close>; the text of a built-in function is left to the implementation\<close>
  "format_description opts =
     (let fmt = (case format opts of None \<Rightarrow> ''standard''
                 | Some f \<Rightarrow> if f = [] then ''standard'' else f)
      in case lookup_property formatMap fmt of
           Own d \<Rightarrow> Inr d
         | Undefined \<Rightarrow> Inr ''undefined''
         | Proto_object \<Rightarrow> Inr ''[object Object]''
         | Proto_method n \<Rightarrow> Inl (Inherited_member n))"

definition add_role :: "components \<Rightarrow> string \<Rightarrow> string \<times> string list" where
  "add_role comps text =
     (if \<not> truthy (role comps)
      then (''[ROLE]: '' @ inferRole text @ ''\<newline>\<newline>'' @ text, [''Role''])
      else (text, []))"

definition add_task_header :: "components \<Rightarrow> string \<times> string list \<Rightarrow> string \<times> string list" where
  \<comment> \<open>\<open>result.replace(/^/, '[TASK]: ')\<close> puts the header in front\<close>
  "add_task_header comps ra =
     (case ra of (result, added) \<Rightarrow>
        if \<not> truthy (task comps) \<and> \<not> startsWith result ''[TASK]''
        then (''[TASK]: '' @ result, added @ [''Task Header''])
        else (result, added))"

definition add_output_format ::
  "components \<Rightarrow> options \<Rightarrow> string \<times> string list \<Rightarrow> failure + string \<times> string list" where
  "add_output_format comps opts ra =
     (case ra of (result, added) \<Rightarrow>
        if \<not> truthy (outputFormat comps)
        then (case format_description opts of
                Inl e \<Rightarrow> Inl e
              | Inr d \<Rightarrow> Inr (result @ ''\<newline>\<newline>[OUTPUT FORMAT]: '' @ d @ ''.'',
                             added @ [''Output Format'']))
        else Inr (result, added))"

definition add_constraints ::
  "components \<Rightarrow> options \<Rightarrow> string \<times> string list \<Rightarrow> string \<times> string list" where
  "add_constraints comps opts ra =
     (case ra of (result, added) \<Rightarrow>
        if \<not> truthy (constraints comps)
        then (result @ ''\<newline>\<newline>[CONSTRAINTS]:\<newline>''
                @ (if concise opts then ''- Be concise and direct\<newline>'' else [])
                @ (if noPreamble opts then ''- No preamble, go straight to the answer\<newline>'' else [])
                @ ''- Ensure accuracy and relevance\<newline>'',
              added @ [''Constraints''])
        else (result, added))"

definition add_never :: "altitude \<Rightarrow> string \<times> string list \<Rightarrow> string \<times> string list" where
  "add_never alt ra =
     (case ra of (result, added) \<Rightarrow>
        if alt = Too_high
        then (result @ ''\<newline>\<newline>[NEVER]:\<newline>''
                @ ''- Don't be vague or use filler language\<newline>''
                @ ''- Don't make assumptions without stating them\<newline>'',
              added @ [''Negative Constraints''])
        else (result, added))"

definition framework_sections :: "string \<Rightarrow> opt_state \<Rightarrow> failure + string \<times> string list" where
  \<comment> \<open>the five conditional insertions of \<open>addFrameworkStructure\<close>, in their order, with
     the list \<open>added\<close>\<close>
  "framework_sections text s =
     (let comps = components (this_analysis s)
      in case add_output_format comps (this_options s)
                (add_task_header comps (add_role comps text)) of
           Inl e \<Rightarrow> Inl e
         | Inr ra \<Rightarrow>
             Inr (add_never (altitude (contextEngineering (this_analysis s)))
                    (add_constraints comps (this_options s) ra)))"

definition addFrameworkStructure :: "string \<Rightarrow> opt_state \<Rightarrow> failure + string \<times> opt_state" where
  "addFrameworkStructure text s =
     (case framework_sections text s of
        Inl e \<Rightarrow> Inl e
      | Inr (result, added) \<Rightarrow>
          Inr (result,
               if 0 < length added
               then push_technique
                      \<lparr> name = ''Framework Structure'',
                        description = ''Added: '' @ join '', '' added,
                        impact = ''Follows Anthropic 10-component framework'' \<rparr> s
               else s))"

subsection \<open>Stage 4: altitude\<close>

definition bullet :: string where
  \<comment> \<open>the replacement text of \<open>raiseAltitude\<close>: the code units U+00E2, U+20AC and
     U+00A2\<close>
  "bullet = [CHR 0xE2, CHR 0x80, CHR 0xA2]"

definition raiseAltitude :: "string \<Rightarrow> opt_state \<Rightarrow> string \<times> opt_state" where
  "raiseAltitude text s =
     (let result1 = replace_all True (seqs [Lit ''step '', Rep Digit 1 None True, Lit '':''])
                      (\<lambda>m. bullet) text;
          result2 = replace_all True
                      (seqs [Lit ''first'', Rep Dot 0 None False, Lit ''then'', Rep Dot 0 None False,
                             Lit ''finally''])
                      (\<lambda>m. ''Follow a logical progression: '' @
                            trim (replace_all True (lits [''first'', ''then'', ''finally''])
                                    (\<lambda>m'. []) m))
                      result1
      in (result2,
          push_technique
            \<lparr> name = ''Altitude Correction'',
              description = ''Raised from too-low (hardcoded) to principle-based'',
              impact = ''More flexible and generalizable'' \<rparr> s))"

definition lowerAltitude :: "string \<Rightarrow> opt_state \<Rightarrow> string \<times> opt_state" where
  "lowerAltitude text s =
     (let result1 = replace_all True (Lit ''be professional'')
                      (\<lambda>m. ''use formal business language with proper structure'') text;
          result2 = replace_all True (Lit ''be helpful'')
                      (\<lambda>m. ''provide clear, actionable guidance with specific examples'') result1;
          result3 = replace_all True (Lit ''be creative'')
                      (\<lambda>m. ''explore unconventional approaches and present multiple options'') result2;
          result4 = replace_all True (Lit ''do your best'')
                      (\<lambda>m. ''prioritize accuracy and completeness'') result3
      in (result4,
          push_technique
            \<lparr> name = ''Altitude Correction'',
              description = ''Lowered from too-high (vague) to specific guidance'',
              impact = ''Clearer expectations and better results'' \<rparr> s))"

definition correctAltitude :: "string \<Rightarrow> opt_state \<Rightarrow> string \<times> opt_state" where
  "correctAltitude text s =
     (let alt = altitude (contextEngineering (this_analysis s))
      in if alt = Too_low then raiseAltitude text s
         else if alt = Too_high then lowerAltitude text s
         else (text, s))"

subsection \<open>Stage 5: the rules of the target model\<close>

definition insert_at :: "nat \<Rightarrow> string \<Rightarrow> string \<Rightarrow> string" where
  \<comment> \<open>\<open>result.slice(0, i) + insert + result.slice(i)\<close>\<close>
  "insert_at i ins result = take i result @ ins @ drop i result"

definition go_beyond_text :: string where
  "go_beyond_text = ''\<newline>\<newline>Go beyond the basics. Include as many relevant details and nuances as possible to create a comprehensive, fully-featured response.''"

definition thinking_block_text :: string where
  "thinking_block_text = ''\<newline>\<newline>Before providing your final answer, analyze the problem in a <thinking> block, considering different approaches and potential issues.''"

definition motivation_text :: string where
  "motivation_text = ''\<newline>\<newline>Note: These constraints are important because they ensure the output meets specific quality and usability standards.\<newline>''"

definition claude_go_beyond :: "string \<Rightarrow> string \<times> string list \<Rightarrow> string \<times> string list" where
  \<comment> \<open>the three conditional blocks of \<open>applyClaudeRules\<close> act on \<open>result\<close> and
     \<open>applied\<close>; their conditions read the argument \<open>text\<close>\<close>
  \<open>claude_go_beyond text ra =
     (case ra of (result, applied) \<Rightarrow>
        if isCreativeTask text \<and> \<not> hasExplicitRequest text
        then (result @ go_beyond_text, applied @ [''Explicit "go beyond" request''])
        else (result, applied))\<close>

definition claude_thinking :: "string \<Rightarrow> string \<times> string list \<Rightarrow> string \<times> string list" where
  "claude_thinking text ra =
     (case ra of (result, applied) \<Rightarrow>
        if isAnalyticalTask text \<and> \<not> has_thinking_tag text
        then (result @ thinking_block_text, applied @ [''Thinking block for analysis''])
        else (result, applied))"

definition claude_motivation :: "string \<Rightarrow> string \<times> string list \<Rightarrow> string \<times> string list" where
  "claude_motivation text ra =
     (case ra of (result, applied) \<Rightarrow>
        if 200 < length text \<and> \<not> includes_str (toLowerCase text) ''because''
           \<and> \<not> includes_str (toLowerCase text) ''this is important''
        then (case indexOf result ''[CONSTRAINTS]'' of
                None \<Rightarrow> (result, applied)
              | Some firstConstraint \<Rightarrow>
                  (insert_at (firstConstraint + 13) motivation_text result,
                   applied @ [''Motivation context'']))
        else (result, applied))"

definition applyClaudeRules :: "string \<Rightarrow> opt_state \<Rightarrow> string \<times> opt_state" where
  "applyClaudeRules text s =
     (case claude_motivation text (claude_thinking text (claude_go_beyond text (text, []))) of
        (result, applied) \<Rightarrow>
          (result,
           if 0 < length applied
           then push_technique
                  \<lparr> name = ''Claude 4.x Optimization'',
                    description = join '', '' applied,
                    impact = ''Optimized for Claude 4.5 Opus/Sonnet'' \<rparr> s
           else s))"

definition step_by_step_text :: string where
  "step_by_step_text = ''\<newline>\<newline>Think through this step-by-step before providing your final answer.''"

definition applyGPTRules :: "string \<Rightarrow> opt_state \<Rightarrow> string \<times> opt_state" where
  "applyGPTRules text s =
     (if \<not> hasChainOfThought text
      then (text @ step_by_step_text,
            push_technique
              \<lparr> name = ''GPT-5 Optimization'',
                description = join '', '' [''Step-by-step reasoning''],
                impact = ''Optimized for GPT-5'' \<rparr> s)
      else (text, s))"

definition grounding_text :: string where
  "grounding_text = ''[CONTEXT]: Provide a response based on your training data and general knowledge.\<newline>\<newline>''"

definition applyGeminiRules :: "string \<Rightarrow> opt_state \<Rightarrow> string \<times> opt_state" where
  "applyGeminiRules text s =
     (if \<not> includes_str (toLowerCase text) ''context'' \<and> length text < 100
      then (grounding_text @ text,
            push_technique
              \<lparr> name = ''Gemini 3 Optimization'',
                description = join '', '' [''Grounding context''],
                impact = ''Optimized for Gemini 3'' \<rparr> s)
      else (text, s))"

definition modelRules :: "(string \<times> (string \<Rightarrow> opt_state \<Rightarrow> string \<times> opt_state)) list" where
  "modelRules =
     [(''claude'', applyClaudeRules), (''gpt'', applyGPTRules), (''gemini'', applyGeminiRules)]"

definition applyModelSpecificRules :: "string \<Rightarrow> opt_state \<Rightarrow> failure + string \<times> opt_state" where
  "applyModelSpecificRules text s =
     (case dispatch modelRules applyClaudeRules (this_model s) of
        Inl e \<Rightarrow> Inl e
      | Inr applier \<Rightarrow> Inr (applier text s))"

subsection \<open>Stage 6: examples, chain of thought, XML\<close>

definition example_block_text :: string where
  "example_block_text = ''\<newline>\<newline>[EXAMPLE]:\<newline>For reference, structure your output similar to:\<newline>- Clear introduction\<newline>- Main content organized logically\<newline>- Concise conclusion''"

definition addExamples :: "string \<Rightarrow> opt_state \<Rightarrow> string \<times> opt_state" where
  "addExamples text s =
     (if truthy (examples (components (this_analysis s))) then (text, s)
      else (let lower = toLowerCase text
            in if includes_str lower ''format'' \<and> \<not> includes_str lower ''example''
               then (text @ example_block_text,
                     push_technique
                       \<lparr> name = ''Examples Added'',
                         description = ''Added structural example'',
                         impact = ''Clarifies expected format'' \<rparr> s)
               else (text, s)))"

definition systematic_text :: string where
  "systematic_text = ''\<newline>\<newline>Think through this systematically:\<newline>1. Understand the core requirements\<newline>2. Consider different approaches\<newline>3. Evaluate trade-offs\<newline>4. Provide your recommended solution''"

definition addChainOfThought :: "string \<Rightarrow> opt_state \<Rightarrow> string \<times> opt_state" where
  "addChainOfThought text s =
     (if hasChainOfThought text then (text, s)
      else if isAnalyticalTask text \<or> 300 < length text
      then (text @ systematic_text,
            push_technique
              \<lparr> name = ''Chain-of-Thought Added'',
                description = ''Added reasoning framework'',
                impact = ''Improves analytical quality'' \<rparr> s)
      else (text, s))"

definition enhanceStructure :: "string \<Rightarrow> opt_state \<Rightarrow> string \<times> opt_state" where
  "enhanceStructure text s =
     (if hasXMLStructure text then (text, s)
      else (let result1 = replace_all True (Lit ''[ROLE]:'') (\<lambda>m. ''<role>\<newline>'') text;
                result2 = replace_all True (Lit ''[TASK]:'') (\<lambda>m. ''</role>\<newline>\<newline><task>'') result1;
                result3 = replace_all True (Lit ''[OUTPUT FORMAT]:'')
                            (\<lambda>m. ''</task>\<newline>\<newline><output_format>'') result2;
                result4 = replace_all True (Lit ''[CONSTRAINTS]:'')
                            (\<lambda>m. ''</output_format>\<newline>\<newline><constraints>'') result3;
                result5 = (if includes_str result4 ''<constraints>''
                              \<and> \<not> includes_str result4 ''</constraints>''
                           then result4 @ ''\<newline></constraints>'' else result4)
            in (result5,
                if result5 \<noteq> text
                then push_technique
                       \<lparr> name = ''XML Structure'',
                         description = ''Converted to XML format for better parsing'',
                         impact = ''Clearer structure for AI'' \<rparr> s
                else s)))"

subsection \<open>The deltas\<close>

definition toFixed :: "nat \<Rightarrow> rat \<Rightarrow> string" where
  \<comment> \<open>\<open>x.toFixed(f)\<close> for \<open>0 \<le> x < 10 ^ 21\<close> and \<open>0 < f\<close>: the integer \<open>n\<close> nearest to
     \<open>x * 10 ^ f\<close>, the larger one at a tie, written with \<open>f\<close> digits after the point\<close>
  "toFixed f x =
     (let n = nat \<lfloor>x * 10 ^ f + 1 / 2\<rfloor>;
          digits = show_nat n;
          padded = replicate (Suc f - length digits) CHR ''0'' @ digits
      in take (length padded - f) padded @ ''.'' @ drop (length padded - f) padded)"

definition calculateImprovements :: "report \<Rightarrow> report \<Rightarrow> improvements" where
  "calculateImprovements old_analysis new_analysis =
     (let old_score = score (overallScore old_analysis);
          score_change = fsub (score (overallScore new_analysis)) old_score;
          efficiency_change = efficiency (tokenEfficiency (contextEngineering new_analysis))
                              - efficiency (tokenEfficiency (contextEngineering old_analysis));
          token_change = tokenCount new_analysis - tokenCount old_analysis;
          costPerToken = rd (3 / 1000000);
          originalCost = fmul (of_int (tokenCount old_analysis)) costPerToken;
          optimizedCost = fmul (of_int (tokenCount new_analysis)) costPerToken;
          costChange = fsub optimizedCost originalCost
      in \<lparr> scoreChange = fdiv (of_int (js_round (fmul score_change 10))) 10,
           scorePercent = (if 0 < old_score
                           then js_round (fmul (fdiv score_change old_score) 100) else 0),
           efficiencyChange = efficiency_change,
           tokenChange = token_change,
           tokenPercent = (if 0 < tokenCount old_analysis
                           then js_round (fmul (fdiv (of_int token_change)
                                                     (of_int (tokenCount old_analysis))) 100)
                           else 0),
           costPerCall = toFixed 6 \<bar>costChange\<bar>,
           costPer1000 = toFixed 2 \<bar>fmul costChange 1000\<bar>,
           costPerYear = toFixed 2 \<bar>fmul (fmul costChange 1000) 365\<bar>,
           isBetter = (0 < score_change) \<rparr>)"

subsection \<open>The entry point\<close>

definition stages_1_2 :: "string \<Rightarrow> string \<Rightarrow> opt_state \<Rightarrow> string \<times> opt_state" where
  "stages_1_2 lvl text s =
     (if lvl = ''quick'' \<or> lvl = ''standard'' \<or> lvl = ''advanced''
      then (case removeRedundancy text s of (t1, s1) \<Rightarrow> (improveClarity t1, s1))
      else (text, s))"

definition stages_3_5 :: "string \<Rightarrow> string \<Rightarrow> opt_state \<Rightarrow> failure + string \<times> opt_state" where
  "stages_3_5 lvl text s =
     (if lvl = ''standard'' \<or> lvl = ''advanced''
      then (case addFrameworkStructure text s of
              Inl e \<Rightarrow> Inl e
            | Inr (t3, s3) \<Rightarrow>
                (case correctAltitude t3 s3 of (t4, s4) \<Rightarrow> applyModelSpecificRules t4 s4))
      else Inr (text, s))"

definition stage_6 :: "string \<Rightarrow> string \<Rightarrow> opt_state \<Rightarrow> string \<times> opt_state" where
  "stage_6 lvl text s =
     (if lvl = ''advanced''
      then (case addExamples text s of (t6, s6) \<Rightarrow>
              (case addChainOfThought t6 s6 of (t7, s7) \<Rightarrow> enhanceStructure t7 s7))
      else (text, s))"

definition pipeline :: "string \<Rightarrow> string \<Rightarrow> opt_state \<Rightarrow> failure + string \<times> opt_state" where
  \<comment> \<open>the three conditional blocks of \<open>optimize\<close>\<close>
  "pipeline lvl text s =
     (case stages_1_2 lvl text s of (t2, s2) \<Rightarrow>
        (case stages_3_5 lvl t2 s2 of
           Inl e \<Rightarrow> Inl e
         | Inr (t5, s5) \<Rightarrow> Inr (stage_6 lvl t5 s5)))"

definition optimize_entry ::
  "opt_state \<Rightarrow> string \<Rightarrow> report \<Rightarrow> string \<Rightarrow> string \<Rightarrow> options \<Rightarrow> opt_state" where
  \<comment> \<open>the six assignments at the entry of \<open>optimize\<close>\<close>
  "optimize_entry this originalPrompt analysis model_key lvl opts =
     this\<lparr> this_originalPrompt := originalPrompt, this_analysis := analysis,
           this_model := model_key, this_level := lvl, this_options := opts,
           this_techniques := [] \<rparr>"

definition optimize ::
  "opt_state \<Rightarrow> string \<Rightarrow> report \<Rightarrow> string \<Rightarrow> string \<Rightarrow> options \<Rightarrow> failure + result \<times> opt_state" where
  \<comment> \<open>the object before the call, then the arguments; the result and the object after
     the call\<close>
  "optimize this originalPrompt analysis model_key lvl opts =
     (case pipeline lvl originalPrompt
             (optimize_entry this originalPrompt analysis model_key lvl opts) of
        Inl e \<Rightarrow> Inl e
      | Inr (optimized_text, s) \<Rightarrow>
          (case analyze optimized_text model_key of
             Inl e \<Rightarrow> Inl e
           | Inr new \<Rightarrow>
               Inr (\<lparr> original = originalPrompt,
                      optimized = optimized_text,
                      techniques = this_techniques s,
                      improvements = calculateImprovements analysis new,
                      newAnalysis = new \<rparr>, s)))"

section \<open>Predicates used in the statements\<close>

definition plain_key :: "string \<Rightarrow> bool" where
  \<comment> \<open>a key that names no property inherited from \<open>Object.prototype\<close>\<close>
  "plain_key key = (key \<noteq> ''__proto__'' \<and> key \<notin> set object_prototype_methods)"

definition components_invariant :: "components \<Rightarrow> bool" where
  "components_invariant c =
     (presentCount c + missingCount c = 10 \<and> components_score c = of_int (presentCount c) * 10)"

definition fresh_object :: opt_state where
  \<comment> \<open>an optimizer object for the concrete calls below; \<open>optimize\<close> assigns every
     field at its entry\<close>
  "fresh_object =
     \<lparr> this_originalPrompt = [], this_analysis = getEmptyAnalysis, this_model = [],
       this_level = [],
       this_options = \<lparr> format = None, concise = False, noPreamble = False,
                        showThinking = False \<rparr>,
       this_techniques = [] \<rparr>"

definition default_options :: options where
  \<comment> \<open>the options object \<open>{}\<close>\<close>
  "default_options =
     \<lparr> format = None, concise = False, noPreamble = False, showThinking = False \<rparr>"

definition framework_technique_all :: technique where
  \<comment> \<open>the technique the framework stage records when it has added the role, the task
     header, the output format and the constraints\<close>
  "framework_technique_all =
     \<lparr> name = ''Framework Structure'',
       description = ''Added: Role, Task Header, Output Format, Constraints'',
       impact = ''Follows Anthropic 10-component framework'' \<rparr>"





section \<open>Lemmas on scans, pieces and counts\<close>

text \<open>
  A scan keeps every code unit of the text, in a match or outside one. So a
  replacement adds only the code units of the replacement texts, and splitting,
  trimming, filtering and joining add only the code units of the separator.
\<close>

lemma scan_raw: "rebuild (\<lambda>m. m) (scan ci r k w s) = drop k s"
proof (induction s arbitrary: k w)
  case Nil
  then show ?case by simp
next
  case (Cons x xs)
  show ?case
  proof (cases k)
    case 0
    then show ?thesis
      using Cons.IH by (auto split: option.splits nat.splits)
  next
    case (Suc k')
    then show ?thesis using Cons.IH by simp
  qed
qed

lemma count_rebuild_le:
  "(\<And>m. c \<notin> set (f m)) \<Longrightarrow>
     count_list (rebuild f toks) c \<le> count_list (rebuild (\<lambda>m. m) toks) c"
  by (induction f toks rule: rebuild.induct) auto

lemma count_replace_all_le:
  assumes "\<And>m. c \<notin> set (f m)"
  shows "count_list (replace_all ci r f s) c \<le> count_list s c"
  using count_rebuild_le[of c f "scan ci r 0 None s", OF assms] 
  by (simp add: replace_all_def scan_raw)

lemma split_runs_nonempty: "split_runs sep b s \<noteq> []"
  by (induction s arbitrary: b) (auto split: list.splits)

lemma count_split_runs_le:
  "sum_list (map (\<lambda>p. count_list p c) (split_runs sep b s)) \<le> count_list s c"
proof (induction s arbitrary: b)
  case Nil
  then show ?case by simp
next
  case (Cons x xs)
  show ?case
  proof (cases "sep x")
    case True
    then show ?thesis
      using Cons.IH[of True] by (auto simp: le_SucI)
  next
    case False
    then show ?thesis
      using Cons.IH[of False] split_runs_nonempty[of sep False xs]
      by (auto split: list.splits)
  qed
qed

lemma count_dropWhile_le: "count_list (dropWhile P xs) c \<le> count_list xs c"
  by (induction xs) auto

lemma count_list_rev: "count_list (rev xs) c = count_list xs c"
  by (induction xs) auto

lemma count_trim_le: "count_list (trim s) c \<le> count_list s c"
proof -
  have "count_list (trim s) c = count_list (dropWhile is_space (rev (dropWhile is_space s))) c"
    by (simp add: trim_def count_list_rev)
  also have "\<dots> \<le> count_list (rev (dropWhile is_space s)) c" by (rule count_dropWhile_le)
  also have "\<dots> \<le> count_list s c" by (simp add: count_list_rev count_dropWhile_le)
  finally show ?thesis .
qed

lemma sum_count_map_trim_le:
  "sum_list (map (\<lambda>p. count_list p c) (map trim ps)) \<le> sum_list (map (\<lambda>p. count_list p c) ps)"
  by (induction ps) (auto intro: add_mono count_trim_le)

lemma sum_count_filter_le:
  "sum_list (map (\<lambda>p. count_list p c) (filter P ps)) \<le> sum_list (map (\<lambda>p. count_list p (c::char)) ps)"
  by (induction ps) auto

lemma sum_count_keep_first_le:
  "sum_list (map (\<lambda>p. count_list p c) (fst (keep_first xs seen n)))
     \<le> sum_list (map (\<lambda>p. count_list p (c::char)) xs)"
  by (induction xs seen n rule: keep_first.induct) (auto simp: Let_def split: prod.splits)

lemma count_join:
  "c \<notin> set sep \<Longrightarrow> count_list (join sep xs) c = sum_list (map (\<lambda>p. count_list p c) xs)"
  by (induction sep xs rule: join.induct) auto

section \<open>Properties of the analyzer\<close>

subsection \<open>When \<open>analyze\<close> returns\<close>

lemma dispatch_plain:
  "plain_key key \<Longrightarrow>
     dispatch table fb key = Inr (case map_of table key of Some f \<Rightarrow> f | None \<Rightarrow> fb)"
  by (simp add: dispatch_def lookup_property_def plain_key_def split: option.splits)

lemma dispatch_proto:
  "map_of table ''__proto__'' = None \<Longrightarrow> dispatch table fb ''__proto__'' = Inl TypeError"
  by (simp add: dispatch_def lookup_property_def)

lemma analyzeModelFit_plain: "plain_key key \<Longrightarrow> \<exists>fit. analyzeModelFit tx key = Inr fit"
  by (simp add: analyzeModelFit_def dispatch_plain)

lemma calculateOverallScore_plain:
  "plain_key key \<Longrightarrow> \<exists>ov. calculateOverallScore tx key = Inr ov"
  using analyzeModelFit_plain[of key tx]
  by (auto simp: calculateOverallScore_def Let_def)

lemma analyze_plain: "plain_key key \<Longrightarrow> \<exists>r. analyze tx key = Inr r"
  using analyzeModelFit_plain[of key tx] calculateOverallScore_plain[of key tx]
  by (auto simp: analyze_def)

lemma analyze_nonblank:
  assumes "analyze tx key = Inr r" and "trim tx \<noteq> []"
  shows "tokenCount r = countTokens tx"
    and "components r = analyzeComponents tx"
    and "contextEngineering r = analyzeContextEngineering tx"
    and "analyzeModelFit tx key = Inr (modelFit r)"
    and "calculateOverallScore tx key = Inr (overallScore r)"
  using assms by (auto simp: analyze_def trim_def split: sum.splits if_splits)

lemma analyze_blank: "trim tx = [] \<Longrightarrow> analyze tx key = Inr getEmptyAnalysis"
  by (simp add: analyze_def)

lemma analyze_cases:
  "analyze tx key = Inr r \<Longrightarrow>
     (trim tx = [] \<and> r = getEmptyAnalysis) \<or>
     (trim tx \<noteq> [] \<and> components r = analyzeComponents tx)"
  using analyze_nonblank(2)[of tx key r] analyze_blank[of tx key] by auto

lemma plain_claude: "plain_key ''claude''"
  by code_simp

lemma unknown_key_falls_back:
  assumes "plain_key key" and "key \<notin> {''claude'', ''gpt'', ''gemini''}"
  shows "analyzeModelFit tx key = Inr (analyzeClaudeFit tx)"
    and "this_model s = key \<Longrightarrow> applyModelSpecificRules tx s = Inr (applyClaudeRules tx s)"
  using assms
  by (simp_all add: analyzeModelFit_def applyModelSpecificRules_def dispatch_plain
        modelAnalyzers_def modelRules_def)

subsection \<open>The score\<close>

text \<open>
  Claim C1 says that for every text and model key the score of the report lies between
  0 and 10. The code comments mark each of the four weighted terms as a value from 0
  to 10, but the efficiency term is not bounded: \<open>countHighSignalTokens\<close> adds up the
  matches of five patterns, and one stretch of text can match several of them. On the
  text below the occurrences of \<open>must\<close>, the tag and the bracketed section overlap,
  the efficiency is 400, its term is 40, and the score is the double nearest to 14.8.
\<close>

theorem overall_score_above_maximum:
  "\<exists>r. analyze ''<[mustmustmustmust]>'' ''claude'' = Inr r \<and>
       efficiency (tokenEfficiency (contextEngineering r)) = 400 \<and>
       score (overallScore r) = rd (74 / 5) \<and>
       maxScore (overallScore r) = 10 \<and>
       10 < score (overallScore r)"
proof -
  let ?t = "''<[mustmustmustmust]>''"
  obtain r where r: "analyze ?t ''claude'' = Inr r"
    using analyze_plain[OF plain_claude] by blast
  have t: "trim ?t \<noteq> []" by code_simp
  have c: "calculateOverallScore ?t ''claude'' =
          Inr \<lparr> score = rd (74 / 5), maxScore = 10,
                overall_rating = \<lparr> label = ''Excellent'', color = ''#10b981'' \<rparr>,
                breakdown = Some \<lparr> breakdown_components = 1, breakdown_efficiency = 40,
                                   breakdown_altitude = 10, breakdown_modelFit = 10 \<rparr> \<rparr>"
    by code_simp
  have ov: "overallScore r =
          \<lparr> score = rd (74 / 5), maxScore = 10,
            overall_rating = \<lparr> label = ''Excellent'', color = ''#10b981'' \<rparr>,
            breakdown = Some \<lparr> breakdown_components = 1, breakdown_efficiency = 40,
                               breakdown_altitude = 10, breakdown_modelFit = 10 \<rparr> \<rparr>"
    using analyze_nonblank(5)[OF r t] c by simp
  have s: "score (overallScore r) = rd (74 / 5)" "maxScore (overallScore r) = 10"
    by (simp_all add: ov)
  have "efficiency (calculateTokenEfficiency ?t) = 400" by code_simp
  with analyze_nonblank(3)[OF r t]
  have e: "efficiency (tokenEfficiency (contextEngineering r)) = 400"
    by (simp add: analyzeContextEngineering_def)
  have "(10 :: rat) < rd (74 / 5)" by code_simp
  with r s e show ?thesis by auto
qed

subsection \<open>Token efficiency\<close>

text \<open>
  Claim C3 says that the efficiency of the report is an integer from 0 to 100, the
  rounded percentage of useful tokens among all tokens. The code computes that rounded
  percentage, and treats it as a value of at most 100 where it divides it by 10 for the
  score, but nothing keeps the useful tokens below the total: in \<open>[must]\<close> the word and
  the bracketed section are both counted, 10 code units in a text of 6. The text has 2
  tokens, 3 useful tokens and the efficiency 150.
\<close>

theorem token_efficiency_above_100:
  "\<exists>r. analyze ''[must]'' ''claude'' = Inr r \<and>
       total_tokens (tokenEfficiency (contextEngineering r)) = 2 \<and>
       useful_tokens (tokenEfficiency (contextEngineering r)) = 3 \<and>
       efficiency (tokenEfficiency (contextEngineering r)) = 150"
proof -
  let ?t = "''[must]''"
  obtain r where r: "analyze ?t ''claude'' = Inr r"
    using analyze_plain[OF plain_claude] by blast
  have t: "trim ?t \<noteq> []" by code_simp
  have "calculateTokenEfficiency ?t =
          \<lparr> total_tokens = 2, useful_tokens = 3, efficiency = 150,
            efficiency_rating = ''excellent'' \<rparr>"
    by code_simp
  with analyze_nonblank(3)[OF r t]
  have "tokenEfficiency (contextEngineering r) =
          \<lparr> total_tokens = 2, useful_tokens = 3, efficiency = 150,
            efficiency_rating = ''excellent'' \<rparr>"
    by (simp add: analyzeContextEngineering_def)
  with r show ?thesis by auto
qed

subsection \<open>The component counts\<close>

lemma tenths_exact:
  "\<forall>p \<in> set [0..<11]. fmul (fdiv (rat_of_nat p) 10) 100 = rat_of_nat p * 10"
  by code_simp

lemma length_component_flags: "length (component_flags tx) = 10"
  by (simp add: component_flags_def)

lemma present_le_10: "length (filter P (component_flags tx)) \<le> 10"
  using length_filter_le[of P "component_flags tx"] by (simp add: length_component_flags)

lemma analyzeComponents_invariant: "components_invariant (analyzeComponents tx)"
proof -
  let ?n = "length (filter (\<lambda>v. v) (component_flags tx))"
  have "?n \<in> set [0..<11]" using present_le_10[of "\<lambda>v. v" tx] by simp
  then have "fmul (fdiv (rat_of_nat ?n) 10) 100 = rat_of_nat ?n * 10"
    using tenths_exact by blast
  then show ?thesis
    by (simp add: components_invariant_def analyzeComponents_def Let_def)
qed

lemma empty_components_invariant: "components_invariant (components getEmptyAnalysis)"
  by (simp add: components_invariant_def getEmptyAnalysis_def)

text \<open>
  Claim C4: for every text, the empty and the blank one included, the components of the
  report satisfy \<open>presentCount + missingCount = 10\<close> and \<open>score = presentCount * 10\<close>.
  The score is computed in doubles as \<open>(present / 10) * 100\<close>; for each of the eleven
  possible counts the two roundings give exactly ten times the count. The call returns
  for every model key that names no inherited property.
\<close>

theorem analyze_components_invariant:
  "(plain_key model_key \<longrightarrow> (\<exists>r. analyze tx model_key = Inr r)) \<and>
   (\<forall>r. analyze tx model_key = Inr r \<longrightarrow> components_invariant (components r))"
  using analyze_plain[of model_key tx] analyze_cases[of tx model_key]
        analyzeComponents_invariant[of tx] empty_components_invariant
  by auto

theorem analyze_components_invariant_witness:
  "\<exists>r. analyze ''Write a poem'' ''claude'' = Inr r \<and>
       presentCount (components r) + missingCount (components r) = 10 \<and>
       components_score (components r) = of_int (presentCount (components r)) * 10"
  using analyze_components_invariant[of "''claude''" "''Write a poem''"] plain_claude
  by (auto simp: components_invariant_def)

subsection \<open>Altitude\<close>

text \<open>
  Claim C5: the altitude of a text follows the ordered rule over the three marker
  counts: more than two low markers give too-low; otherwise more than two high markers
  together with fewer than two good markers give too-high; otherwise just-right. In
  particular three low markers decide for too-low whatever the other counts are. The
  rule holds for every text; the report of \<open>analyze\<close> carries this classification
  for every text that is not blank.
\<close>

theorem altitude_decision_rule:
  "detectAltitude tx =
     (if 2 < marker_count lowMarkers tx then Too_low
      else if 2 < marker_count highMarkers tx \<and> marker_count goodMarkers tx < 2 then Too_high
      else Just_right) \<and>
   (3 \<le> marker_count lowMarkers tx \<longrightarrow> detectAltitude tx = Too_low) \<and>
   (trim tx \<noteq> [] \<and> analyze tx model_key = Inr r \<longrightarrow>
      altitude (contextEngineering r) = detectAltitude tx)"
  using analyze_nonblank(3)[of tx model_key r]
  by (auto simp: detectAltitude_def Let_def analyzeContextEngineering_def)

theorem altitude_decision_rule_witness:
  "marker_count lowMarkers ''step 1: step 2: step 3:'' = 3 \<and>
   marker_count highMarkers ''step 1: step 2: step 3:'' = 0 \<and>
   marker_count goodMarkers ''step 1: step 2: step 3:'' = 0 \<and>
   detectAltitude ''step 1: step 2: step 3:'' = Too_low \<and>
   (\<exists>r. analyze ''step 1: step 2: step 3:'' ''claude'' = Inr r \<and>
        altitude (contextEngineering r) = Too_low)"
proof -
  let ?t = "''step 1: step 2: step 3:''"
  have l: "marker_count lowMarkers ?t = 3" by code_simp
  have h: "marker_count highMarkers ?t = 0" by code_simp
  have g: "marker_count goodMarkers ?t = 0" by code_simp
  have t: "trim ?t \<noteq> []" by code_simp
  obtain r where r: "analyze ?t ''claude'' = Inr r"
    using analyze_plain[OF plain_claude] by blast
  have d: "detectAltitude ?t = Too_low"
    using altitude_decision_rule[of ?t "''claude''" r] l by simp
  have "altitude (contextEngineering r) = Too_low"
    using altitude_decision_rule[of ?t "''claude''" r] t r d by simp
  with l h g d r show ?thesis by blast
qed

subsection \<open>Unknown model keys\<close>

text \<open>
  Claim C9 says that every model key outside claude, gpt and gemini falls back to the
  rules of claude and never raises. Both dispatches write \<open>table[key] || table.claude\<close>,
  which does so for a key that names nothing (\<open>unknown_key_falls_back\<close>), but a key
  that names an inherited property finds that property. For the key \<open>__proto__\<close> it
  is the object \<open>Object.prototype\<close>, which has no \<open>call\<close>: the analyzer's dispatch,
  \<open>analyze\<close> and the optimizer's dispatch raise a TypeError.
\<close>

theorem inherited_key_raises:
  "analyzeModelFit tx ''__proto__'' = Inl TypeError \<and>
   analyze ''Write a poem'' ''__proto__'' = Inl TypeError \<and>
   applyModelSpecificRules tx (s\<lparr> this_model := ''__proto__'' \<rparr>) = Inl TypeError"
proof -
  have a: "map_of modelAnalyzers ''__proto__'' = None" by code_simp
  have b: "map_of modelRules ''__proto__'' = None" by (simp add: modelRules_def)
  have t: "trim ''Write a poem'' \<noteq> []" by code_simp
  have 1: "analyzeModelFit tx ''__proto__'' = Inl TypeError" for tx
    by (simp add: analyzeModelFit_def dispatch_proto[OF a])
  have 2: "analyze ''Write a poem'' ''__proto__'' = Inl TypeError"
    using t by (simp add: analyze_def 1)
  have 3: "applyModelSpecificRules tx (s\<lparr> this_model := ''__proto__'' \<rparr>) = Inl TypeError"
    by (simp add: applyModelSpecificRules_def dispatch_proto[OF b])
  from 1 2 3 show ?thesis by simp
qed

section \<open>Properties of the optimizer\<close>

subsection \<open>The fields of the object between calls\<close>

text \<open>
  Claim C10: the result of a call of \<open>optimize\<close> does not depend on the calls before
  it. The call assigns all six fields of the object at its entry, the list of
  techniques to the empty list, so the result and the object after the call are the
  same from whatever object the call starts: what a second call returns after a first
  one is what it returns in isolation.
\<close>

theorem optimize_isolated:
  "optimize this originalPrompt analysis model_key lvl opts =
   optimize this' originalPrompt analysis model_key lvl opts"
  by (cases this; cases this') (simp add: optimize_def optimize_entry_def)

subsection \<open>The result of \<open>optimize\<close>\<close>

lemma optimize_Inr_iff:
  "optimize this tx a m lvl opts = Inr (res, s) \<longleftrightarrow>
     (\<exists>t new. pipeline lvl tx (optimize_entry this tx a m lvl opts) = Inr (t, s) \<and>
              analyze t m = Inr new \<and>
              res = \<lparr> original = tx, optimized = t, techniques = this_techniques s,
                      improvements = calculateImprovements a new, newAnalysis = new \<rparr>)"
  by (auto simp: optimize_def split: sum.splits prod.splits)

lemma optimize_returns:
  assumes "pipeline lvl tx (optimize_entry this tx a m lvl opts) = Inr (t, s)" and "plain_key m"
  shows "\<exists>res. optimize this tx a m lvl opts = Inr (res, s) \<and> original res = tx \<and>
               optimized res = t \<and> techniques res = this_techniques s"
proof -
  obtain new where "analyze t m = Inr new" using analyze_plain[OF assms(2)] by blast
  with assms(1) show ?thesis by (simp add: optimize_Inr_iff)
qed

lemma entry_techniques [simp]: "this_techniques (optimize_entry this tx a m lvl opts) = []"
  by (simp add: optimize_entry_def)

lemma count_dedupe_text_le:
  assumes "c \<notin> set ''. ''"
  shows "count_list (fst (dedupe_text tx)) c \<le> count_list tx c"
proof -
  obtain u n where d: "dedupe_sentences tx = (u, n)" by (cases "dedupe_sentences tx")
  show ?thesis
  proof (cases "0 < n")
    case False
    then show ?thesis by (simp add: dedupe_text_def d)
  next
    case True
    have u: "u = fst (keep_first (sentences_of tx) [] 0)"
      using d by (simp add: dedupe_sentences_def)
    have "count_list (join ''. '' u @ ''.'') c = sum_list (map (\<lambda>p. count_list p c) u)"
      using assms by (auto simp: count_join)
    also have "\<dots> \<le> sum_list (map (\<lambda>p. count_list p c) (sentences_of tx))"
      unfolding u by (rule sum_count_keep_first_le)
    also have "\<dots> \<le> sum_list (map (\<lambda>p. count_list p c) (map trim (split_on is_terminator tx)))"
      unfolding sentences_of_def by (rule sum_count_filter_le)
    also have "\<dots> \<le> sum_list (map (\<lambda>p. count_list p c) (split_on is_terminator tx))"
      by (rule sum_count_map_trim_le)
    also have "\<dots> \<le> count_list tx c"
      unfolding split_on_def by (rule count_split_runs_le)
    finally show ?thesis using True by (simp add: dedupe_text_def d)
  qed
qed

lemma fst_removeRedundancy:
  "fst (removeRedundancy tx s) =
     (if match_all True fillers (fst (dedupe_text tx)) \<noteq> []
      then replace_all True fillers (\<lambda>m. []) (fst (dedupe_text tx))
      else fst (dedupe_text tx))"
  by (simp add: removeRedundancy_def Let_def split: prod.splits)

lemma count_removeRedundancy_le:
  assumes "c \<notin> set ''. ''"
  shows "count_list (fst (removeRedundancy tx s)) c \<le> count_list tx c"
proof -
  have "count_list (replace_all True fillers (\<lambda>m. []) (fst (dedupe_text tx))) c
          \<le> count_list (fst (dedupe_text tx)) c"
    by (rule count_replace_all_le) simp
  then show ?thesis
    using count_dedupe_text_le[OF assms, of tx] by (auto simp: fst_removeRedundancy)
qed

lemma count_improveClarity_le:
  assumes "c \<notin> set '' and ''"
  shows "count_list (improveClarity tx) c \<le> count_list tx c"
  unfolding improveClarity_def using assms by (intro count_replace_all_le) simp

lemma removeRedundancy_names:
  "this_techniques s = [] \<Longrightarrow>
     set (map name (this_techniques (snd (removeRedundancy tx s))))
       \<subseteq> {''Redundancy Removal'', ''Filler Word Removal''}"
  by (auto simp: removeRedundancy_def Let_def push_technique_def split: prod.splits if_splits)

lemma pipeline_quick:
  "pipeline ''quick'' tx s =
     Inr (improveClarity (fst (removeRedundancy tx s)), snd (removeRedundancy tx s))"
  by (simp add: pipeline_def stages_1_2_def stages_3_5_def stage_6_def split: prod.splits)

lemma fst_removeRedundancy_state: "fst (removeRedundancy tx s) = fst (removeRedundancy tx s')"
  by (simp add: fst_removeRedundancy)

text \<open>
  Claim C7: at level quick \<open>optimize\<close> inserts no bracketed section header. Only
  \<open>removeRedundancy\<close> and \<open>improveClarity\<close> run: the output is their composition, the
  only techniques recorded are theirs, and the output has no more of any code unit
  than the input, except those of the texts the two stages write themselves (the
  period and the space between kept sentences, and \<open>and\<close> between single spaces). In
  particular it has no bracket that the input did not have. The call returns for every
  model key that names no inherited property.
\<close>

theorem quick_inserts_no_section:
  "(plain_key model_key \<longrightarrow> (\<exists>res s. optimize this tx report model_key ''quick'' opts = Inr (res, s))) \<and>
   (\<forall>res s. optimize this tx report model_key ''quick'' opts = Inr (res, s) \<longrightarrow>
      optimized res = improveClarity (fst (removeRedundancy tx this)) \<and>
      set (map name (techniques res)) \<subseteq> {''Redundancy Removal'', ''Filler Word Removal''} \<and>
      (\<forall>c. c \<notin> set ''. and'' \<longrightarrow> count_list (optimized res) c \<le> count_list tx c))"
proof -
  let ?s0 = "optimize_entry this tx report model_key ''quick'' opts"
  let ?out = "improveClarity (fst (removeRedundancy tx this))"
  have p: "pipeline ''quick'' tx ?s0 = Inr (?out, snd (removeRedundancy tx ?s0))"
    using fst_removeRedundancy_state[of tx ?s0 this] by (simp add: pipeline_quick)
  have ret: "plain_key model_key \<Longrightarrow> \<exists>res s. optimize this tx report model_key ''quick'' opts = Inr (res, s)"
    using optimize_returns[OF p] by blast
  have cnt: "count_list ?out c \<le> count_list tx c" if "c \<notin> set ''. and''" for c
  proof -
    have "count_list ?out c \<le> count_list (fst (removeRedundancy tx this)) c"
      using that by (intro count_improveClarity_le) simp
    also have "\<dots> \<le> count_list tx c"
      using that by (intro count_removeRedundancy_le) simp
    finally show ?thesis .
  qed
  have post: "optimized res = ?out \<and>
      set (map name (techniques res)) \<subseteq> {''Redundancy Removal'', ''Filler Word Removal''}"
    if "optimize this tx report model_key ''quick'' opts = Inr (res, s)" for res s
  proof -
    from that p have "optimized res = ?out" "techniques res = this_techniques (snd (removeRedundancy tx ?s0))"
      by (auto simp: optimize_Inr_iff)
    then show ?thesis using removeRedundancy_names[of ?s0 tx] by simp
  qed
  show ?thesis
  proof (intro conjI impI allI)
    assume "plain_key model_key"
    then show "\<exists>res s. optimize this tx report model_key ''quick'' opts = Inr (res, s)"
      by (rule ret)
  next
    fix res s assume o: "optimize this tx report model_key ''quick'' opts = Inr (res, s)"
    show "optimized res = ?out" using post[OF o] by simp
    show "set (map name (techniques res)) \<subseteq> {''Redundancy Removal'', ''Filler Word Removal''}"
      using post[OF o] by simp
    fix c assume "c \<notin> set ''. and''"
    then show "count_list (optimized res) c \<le> count_list tx c"
      using cnt[of c] post[OF o] by simp
  qed
qed

theorem quick_inserts_no_section_witness:
  "\<exists>res s. optimize fresh_object ''[Note] Be brief. [note] be brief! Go really   and  fast.'' getEmptyAnalysis ''claude'' ''quick'' default_options = Inr (res, s) \<and>
     optimized res = ''[Note] Be brief. Go and fast.'' \<and>
     count_list (optimized res) CHR ''['' \<le> count_list ''[Note] Be brief. [note] be brief! Go really   and  fast.'' CHR ''[''"
proof -
  let ?t = "''[Note] Be brief. [note] be brief! Go really   and  fast.''"
  have e: "improveClarity (fst (removeRedundancy ?t fresh_object)) = ''[Note] Be brief. Go and fast.''"
    by code_simp
  have c: "CHR ''['' \<notin> set ''. and''" by simp
  note th = quick_inserts_no_section[of "''claude''" fresh_object ?t getEmptyAnalysis default_options]
  from th plain_claude obtain res s where
    o: "optimize fresh_object ?t getEmptyAnalysis ''claude'' ''quick'' default_options = Inr (res, s)"
    by blast
  from th o have p: "optimized res = improveClarity (fst (removeRedundancy ?t fresh_object))"
    and q: "\<forall>c. c \<notin> set ''. and'' \<longrightarrow> count_list (optimized res) c \<le> count_list ?t c"
    by blast+
  from q c have "count_list (optimized res) CHR ''['' \<le> count_list ?t CHR ''[''"
    by blast
  with o p e show ?thesis by auto
qed

subsection \<open>Running \<open>removeRedundancy\<close> twice\<close>

lemma last_dropWhile_eq: "dropWhile P xs \<noteq> [] \<Longrightarrow> last (dropWhile P xs) = last xs"
  by (induction xs) auto

lemma dropWhile_self: "xs = [] \<or> \<not> P (hd xs) \<Longrightarrow> dropWhile P xs = xs"
  by (cases xs) auto

lemma trim_idem: "trim (trim s) = trim s"
proof -
  define a where "a = dropWhile is_space s"
  define b where "b = dropWhile is_space (rev a)"
  have "dropWhile is_space (rev b) = rev b"
  proof (cases "b = []")
    case True
    then show ?thesis by simp
  next
    case False
    then have a: "a \<noteq> []" by (auto simp: b_def)
    have "hd (rev b) = last b" using False by (simp add: hd_rev)
    also have "\<dots> = last (rev a)" using False unfolding b_def by (rule last_dropWhile_eq)
    also have "\<dots> = hd a" using a by (simp add: last_rev)
    finally have "\<not> is_space (hd (rev b))" using hd_dropWhile[of is_space s] a by (simp add: a_def)
    then show ?thesis by (intro dropWhile_self) simp
  qed
  moreover have "dropWhile is_space b = b" by (simp add: b_def)
  ultimately show ?thesis by (simp add: trim_def a_def[symmetric] b_def[symmetric])
qed

lemma set_trim_subset: "set (trim s) \<subseteq> set s"
  by (auto simp: trim_def dest!: set_dropWhileD)

lemma trim_space_Cons: "trim (CHR '' '' # p) = trim p"
  by (simp add: trim_def is_space_def)

lemma trim_Nil: "trim [] = []"
  by (simp add: trim_def)

lemma split_runs_no_sep: "p \<in> set (split_runs sep b s) \<Longrightarrow> c \<in> set p \<Longrightarrow> \<not> sep c"
proof (induction s arbitrary: b p)
  case Nil
  then show ?case by simp
next
  case (Cons x xs)
  show ?case
  proof (cases "sep x")
    case True
    with Cons show ?thesis by (auto split: if_splits)
  next
    case False
    obtain q qs where q: "split_runs sep False xs = q # qs"
      using split_runs_nonempty[of sep False xs] by (cases "split_runs sep False xs") auto
    with Cons.prems False have "p = x # q \<or> p \<in> set qs" by auto
    then show ?thesis
    proof
      assume "p = x # q"
      with Cons.prems(2) False Cons.IH[of q False] q show ?thesis by auto
    next
      assume "p \<in> set qs"
      with Cons.prems(2) Cons.IH[of p False] q show ?thesis by auto
    qed
  qed
qed

lemma split_runs_piece:
  assumes "u \<noteq> []" and "\<forall>c \<in> set u. \<not> sep c" and "sep d"
  shows "split_runs sep b (u @ d # rest) = u # split_runs sep True rest"
  using assms
proof (induction u arbitrary: b)
  case Nil
  then show ?case by simp
next
  case (Cons x u)
  show ?case
  proof (cases "u = []")
    case True
    with Cons.prems show ?thesis by simp
  next
    case False
    with Cons.prems Cons.IH[of False] show ?thesis by simp
  qed
qed

lemma sentences_of_clean:
  assumes "x \<in> set (sentences_of tx)"
  shows "x \<noteq> [] \<and> trim x = x \<and> (\<forall>c \<in> set x. \<not> is_terminator c)"
proof -
  from assms obtain p where p: "p \<in> set (split_runs is_terminator False tx)" and x: "x = trim p" "x \<noteq> []"
    by (auto simp: sentences_of_def split_on_def)
  have "\<forall>c \<in> set x. \<not> is_terminator c"
    using split_runs_no_sep[OF p] set_trim_subset[of p] x by blast
  with x trim_idem[of p] show ?thesis by simp
qed

lemma sentences_of_join:
  assumes "\<forall>u \<in> set us. u \<noteq> [] \<and> trim u = u \<and> (\<forall>c \<in> set u. \<not> is_terminator c)"
  shows "sentences_of (join ''. '' us @ ''.'') = us"
proof -
  let ?S = "\<lambda>b t. filter (\<lambda>x. x \<noteq> []) (map trim (split_runs is_terminator b t))"
  have dot: "is_terminator CHR ''.''" and sp: "\<not> is_terminator CHR '' ''"
    by (simp_all add: is_terminator_def)
  have skip: "?S True (CHR '' '' # t) = ?S False t" for t
    using split_runs_nonempty[of is_terminator False t] sp
    by (cases "split_runs is_terminator False t") (auto simp: trim_space_Cons)
  have step: "?S b (u @ ''. '' @ t) = u # ?S False t"
    if "u \<noteq> []" "trim u = u" "\<forall>c \<in> set u. \<not> is_terminator c" for u t b
  proof -
    have "split_runs is_terminator b (u @ CHR ''.'' # CHR '' '' # t)
            = u # split_runs is_terminator True (CHR '' '' # t)"
      using that dot by (intro split_runs_piece) auto
    then have "?S b (u @ ''. '' @ t) = u # ?S True (CHR '' '' # t)"
      using that by simp
    then show ?thesis using skip by simp
  qed
  have last_one: "?S b (u @ ''.'') = [u]"
    if "u \<noteq> []" "trim u = u" "\<forall>c \<in> set u. \<not> is_terminator c" for u b
  proof -
    have "split_runs is_terminator b (u @ CHR ''.'' # []) = u # split_runs is_terminator True []"
      using that dot by (intro split_runs_piece) auto
    then show ?thesis using that by (simp add: trim_Nil)
  qed
  have "?S False (join ''. '' us @ ''.'') = us"
    using assms
  proof (induction us)
    case Nil
    then show ?case using dot by (simp add: trim_Nil)
  next
    case (Cons u us)
    show ?case
    proof (cases us)
      case Nil
      with Cons.prems show ?thesis using last_one[of u False] by simp
    next
      case (Cons v vs)
      with Cons.prems Cons.IH show ?thesis
        using step[of u False "join ''. '' (v # vs) @ ''.''"] by simp
    qed
  qed
  then show ?thesis by (simp add: sentences_of_def split_on_def)
qed

lemma keep_first_distinct:
  "distinct (map toLowerCase (fst (keep_first xs seen n))) \<and>
   set (map toLowerCase (fst (keep_first xs seen n))) \<inter> set seen = {} \<and>
   set (fst (keep_first xs seen n)) \<subseteq> set xs"
proof (induction xs seen n rule: keep_first.induct)
  case (1 seen removed)
  then show ?case by simp
next
  case (2 sentence rest seen removed)
  show ?case
  proof (cases "toLowerCase sentence \<in> set seen")
    case True
    with 2 show ?thesis by (auto simp: Let_def)
  next
    case False
    obtain u r where k: "keep_first rest (toLowerCase sentence # seen) removed = (u, r)"
      by (cases "keep_first rest (toLowerCase sentence # seen) removed")
    from "2.IH"(2)[OF refl False] k
    have ih: "distinct (map toLowerCase u)"
      "set (map toLowerCase u) \<inter> set (toLowerCase sentence # seen) = {}" "set u \<subseteq> set rest"
      by simp_all
    from ih(2) have "toLowerCase sentence \<notin> set (map toLowerCase u)"
      and "set (map toLowerCase u) \<inter> set seen = {}" by auto
    with ih(1,3) False k show ?thesis by (auto simp: Let_def)
  qed
qed

lemma keep_first_counts: "n \<le> snd (keep_first xs seen n)"
  by (induction xs seen n rule: keep_first.induct)
     (auto simp: Let_def split: prod.splits intro: Suc_leD)

lemma keep_first_none_removed:
  "snd (keep_first xs seen n) = n \<Longrightarrow> fst (keep_first xs seen n) = xs"
proof (induction xs seen n rule: keep_first.induct)
  case (1 seen removed)
  then show ?case by simp
next
  case (2 sentence rest seen removed)
  show ?case
  proof (cases "toLowerCase sentence \<in> set seen")
    case True
    with "2.prems" keep_first_counts[of "removed + 1" rest seen] show ?thesis
      by (simp add: Let_def)
  next
    case False
    with 2 show ?thesis by (auto simp: Let_def split: prod.splits)
  qed
qed

lemma keep_first_of_distinct:
  "distinct (map toLowerCase xs) \<Longrightarrow> set (map toLowerCase xs) \<inter> set seen = {} \<Longrightarrow>
     keep_first xs seen n = (xs, n)"
  by (induction xs seen n rule: keep_first.induct) (auto simp: Let_def)

lemma sentences_of_dedupe_text:
  "sentences_of (fst (dedupe_text tx)) = fst (dedupe_sentences tx)"
proof -
  obtain u n where d: "dedupe_sentences tx = (u, n)" by (cases "dedupe_sentences tx")
  then have k: "keep_first (sentences_of tx) [] 0 = (u, n)" by (simp add: dedupe_sentences_def)
  show ?thesis
  proof (cases "0 < n")
    case False
    with k keep_first_none_removed[of "sentences_of tx" "[]" 0] have "u = sentences_of tx" by simp
    with False d show ?thesis by (simp add: dedupe_text_def)
  next
    case True
    have "set u \<subseteq> set (sentences_of tx)" using keep_first_distinct[of "sentences_of tx" "[]" 0] k by simp
    then have "\<forall>x \<in> set u. x \<noteq> [] \<and> trim x = x \<and> (\<forall>c \<in> set x. \<not> is_terminator c)"
      using sentences_of_clean by blast
    then have "sentences_of (join ''. '' u @ ''.'') = u" by (rule sentences_of_join)
    with True d show ?thesis by (simp add: dedupe_text_def)
  qed
qed

lemma dedupe_sentences_distinct: "distinct (map toLowerCase (fst (dedupe_sentences tx)))"
  using keep_first_distinct[of "sentences_of tx" "[]" 0] by (simp add: dedupe_sentences_def)

lemma dedupe_text_again: "dedupe_text (fst (dedupe_text tx)) = (fst (dedupe_text tx), 0)"
proof -
  have "keep_first (sentences_of (fst (dedupe_text tx))) [] 0 = (sentences_of (fst (dedupe_text tx)), 0)"
    using dedupe_sentences_distinct[of tx]
    by (intro keep_first_of_distinct) (simp_all add: sentences_of_dedupe_text)
  then show ?thesis by (simp add: dedupe_text_def dedupe_sentences_def)
qed

text \<open>
  Claim C8 says that after one pass of \<open>removeRedundancy\<close> no two sentences of the
  output are equal up to case, so that a second pass removes no sentence. The function
  removes the repeated sentences first and the filler words afterwards, and removing a
  filler word can make two sentences equal: of \<open>Do it. Really do it.\<close> the first pass
  keeps both sentences and strips \<open>Really\<close>, and the second pass then removes the
  sentence \<open>do it\<close>.
\<close>

theorem second_pass_shrinks:
  "fst (removeRedundancy ''Do it. Really do it.'' fresh_object) = ''Do it. do it.'' \<and>
   sentences_of ''Do it. do it.'' = [''Do it'', ''do it''] \<and>
   \<not> distinct (map toLowerCase (sentences_of ''Do it. do it.'')) \<and>
   fst (removeRedundancy ''Do it. do it.'' fresh_object) = ''Do it.'' \<and>
   sentences_of ''Do it.'' = [''Do it'']"
  by code_simp

text \<open>
  Claim C8 as amended: the step of \<open>removeRedundancy\<close> that removes repeated sentences
  leaves no two sentences equal up to case; and when no filler word is stripped after
  it, the output of \<open>removeRedundancy\<close> has no two such sentences and a second pass
  returns it unchanged, with the same number of sentences.
\<close>

theorem removeRedundancy_stable_without_fillers:
  "distinct (map toLowerCase (sentences_of (fst (dedupe_text tx)))) \<and>
   (match_all True fillers (fst (dedupe_text tx)) = [] \<longrightarrow>
      fst (removeRedundancy tx s) = fst (dedupe_text tx) \<and>
      distinct (map toLowerCase (sentences_of (fst (removeRedundancy tx s)))) \<and>
      fst (removeRedundancy (fst (removeRedundancy tx s)) s') = fst (removeRedundancy tx s) \<and>
      length (sentences_of (fst (removeRedundancy (fst (removeRedundancy tx s)) s')))
        = length (sentences_of (fst (removeRedundancy tx s))))"
proof -
  have d: "distinct (map toLowerCase (sentences_of (fst (dedupe_text tx))))"
    using dedupe_sentences_distinct[of tx] by (simp add: sentences_of_dedupe_text)
  have "fst (removeRedundancy (fst (dedupe_text tx)) s') = fst (dedupe_text tx)"
    if "match_all True fillers (fst (dedupe_text tx)) = []"
    using that by (simp add: fst_removeRedundancy dedupe_text_again)
  with d show ?thesis by (auto simp: fst_removeRedundancy)
qed

theorem removeRedundancy_stable_without_fillers_witness:
  "match_all True fillers (fst (dedupe_text ''Do it. Do IT! Then rest.'')) = [] \<and>
   fst (removeRedundancy ''Do it. Do IT! Then rest.'' fresh_object) = ''Do it. Then rest.'' \<and>
   distinct (map toLowerCase (sentences_of (fst (removeRedundancy ''Do it. Do IT! Then rest.'' fresh_object)))) \<and>
   fst (removeRedundancy (fst (removeRedundancy ''Do it. Do IT! Then rest.'' fresh_object)) fresh_object)
     = fst (removeRedundancy ''Do it. Do IT! Then rest.'' fresh_object)"
proof -
  let ?t = "''Do it. Do IT! Then rest.''"
  have m: "match_all True fillers (fst (dedupe_text ?t)) = []" by code_simp
  have e: "fst (dedupe_text ?t) = ''Do it. Then rest.''" by code_simp
  note th = removeRedundancy_stable_without_fillers[of ?t fresh_object fresh_object]
  from th m have 1: "fst (removeRedundancy ?t fresh_object) = fst (dedupe_text ?t)"
    and 2: "distinct (map toLowerCase (sentences_of (fst (removeRedundancy ?t fresh_object))))"
    and 3: "fst (removeRedundancy (fst (removeRedundancy ?t fresh_object)) fresh_object)
              = fst (removeRedundancy ?t fresh_object)"
    by blast+
  from 1 e have 4: "fst (removeRedundancy ?t fresh_object) = ''Do it. Then rest.''"
    by (rule trans)
  from m 4 2 3 show ?thesis by blast
qed

subsection \<open>The result and the techniques of a call\<close>

lemma optimize_techniques:
  assumes "plain_key m"
  shows "map_sum id (map name \<circ> techniques \<circ> fst) (optimize this tx a m lvl opts) =
         map_sum id (map name \<circ> this_techniques \<circ> snd)
           (pipeline lvl tx (optimize_entry this tx a m lvl opts))"
proof (cases "pipeline lvl tx (optimize_entry this tx a m lvl opts)")
  case (Inl e)
  then show ?thesis by (simp add: optimize_def)
next
  case (Inr p)
  obtain t s where p: "p = (t, s)" by (cases p)
  obtain new where "analyze t m = Inr new" using analyze_plain[OF assms] by blast
  with Inr p show ?thesis by (simp add: optimize_def)
qed

lemma optimize_optimized:
  assumes "plain_key m"
  shows "map_sum id (optimized \<circ> fst) (optimize this tx a m lvl opts) =
         map_sum id fst (pipeline lvl tx (optimize_entry this tx a m lvl opts))"
proof (cases "pipeline lvl tx (optimize_entry this tx a m lvl opts)")
  case (Inl e)
  then show ?thesis by (simp add: optimize_def)
next
  case (Inr p)
  obtain t s where p: "p = (t, s)" by (cases p)
  obtain new where "analyze t m = Inr new" using analyze_plain[OF assms] by blast
  with Inr p show ?thesis by (simp add: optimize_def)
qed

subsection \<open>Stages that only add\<close>

text \<open>
  The stages after the framework stage append or insert text and push techniques; they
  remove nothing. So a text that is not blank stays so, and the techniques recorded so
  far stay at the front of the list.
\<close>

lemma mem_dropWhile: "x \<in> set xs \<Longrightarrow> \<not> P x \<Longrightarrow> x \<in> set (dropWhile P xs)"
  by (induction xs) auto

lemma trim_nonempty_iff: "trim s \<noteq> [] \<longleftrightarrow> (\<exists>c \<in> set s. \<not> is_space c)"
proof
  assume "trim s \<noteq> []"
  then have "dropWhile is_space (rev (dropWhile is_space s)) \<noteq> []"
    by (simp add: trim_def)
  then obtain d where "d \<in> set (rev (dropWhile is_space s))" "\<not> is_space d"
    by (auto simp: dropWhile_eq_Nil_conv)
  then show "\<exists>c \<in> set s. \<not> is_space c"
    by (auto dest: set_dropWhileD)
next
  assume "\<exists>c \<in> set s. \<not> is_space c"
  then obtain c where c: "c \<in> set s" "\<not> is_space c" by blast
  define a where "a = rev (dropWhile is_space s)"
  define b where "b = dropWhile is_space a"
  have t: "trim s = rev b" by (simp add: trim_def a_def b_def)
  from c have "c \<in> set a" by (simp add: a_def mem_dropWhile)
  with c(2) have "c \<in> set b" unfolding b_def by (intro mem_dropWhile)
  then have "b \<noteq> []" by auto
  then show "trim s \<noteq> []" by (simp add: t)
qed

lemma nonblank_superset: "trim t \<noteq> [] \<Longrightarrow> set t \<subseteq> set u \<Longrightarrow> trim u \<noteq> []"
  by (auto simp: trim_nonempty_iff)

lemma rebuild_nonblank:
  "\<exists>c \<in> set (rebuild (\<lambda>m. m) toks). \<not> is_space c \<Longrightarrow> (\<And>m. \<exists>c \<in> set (f m). \<not> is_space c) \<Longrightarrow>
     \<exists>c \<in> set (rebuild f toks). \<not> is_space c"
proof (induction toks)
  case Nil
  then show ?case by simp
next
  case (Cons a toks)
  show ?case
  proof (cases a)
    case (Inl c)
    with Cons show ?thesis by (cases "is_space c") auto
  next
    case (Inr m)
    with Cons.prems(2)[of m] show ?thesis by auto
  qed
qed

lemma replace_all_nonblank:
  assumes "trim s \<noteq> []" and "\<And>m. trim (f m) \<noteq> []"
  shows "trim (replace_all ci r f s) \<noteq> []"
  using rebuild_nonblank[of "scan ci r 0 None s" f] assms
  by (simp add: replace_all_def scan_raw trim_nonempty_iff)

lemma set_insert_at: "set r \<subseteq> set (insert_at i ins r)"
proof -
  have "set r = set (take i r) \<union> set (drop i r)"
    by (metis append_take_drop_id set_append)
  then show ?thesis by (auto simp: insert_at_def)
qed

lemma push_extends: "\<exists>rest. this_techniques (push_technique t s) = this_techniques s @ rest"
  by (simp add: push_technique_def)

lemma claude_steps_keep:
  "set (fst ra) \<subseteq> set (fst (claude_go_beyond t ra))"
  "set (fst ra) \<subseteq> set (fst (claude_thinking t ra))"
  "set (fst ra) \<subseteq> set (fst (claude_motivation t ra))"
  using set_insert_at
  by (auto simp: claude_go_beyond_def claude_thinking_def claude_motivation_def
           split: prod.splits option.splits)

lemma applyClaudeRules_keeps:
  "set t \<subseteq> set (fst (applyClaudeRules t s)) \<and>
   (\<exists>rest. this_techniques (snd (applyClaudeRules t s)) = this_techniques s @ rest)"
proof -
  let ?ra = "claude_motivation t (claude_thinking t (claude_go_beyond t (t, [])))"
  have "set t \<subseteq> set (fst (claude_go_beyond t (t, [])))"
    using claude_steps_keep(1)[of "(t, [])" t] by simp
  also have "\<dots> \<subseteq> set (fst (claude_thinking t (claude_go_beyond t (t, []))))"
    by (rule claude_steps_keep(2))
  also have "\<dots> \<subseteq> set (fst ?ra)"
    by (rule claude_steps_keep(3))
  finally have "set t \<subseteq> set (fst (applyClaudeRules t s))"
    by (auto simp: applyClaudeRules_def split: prod.splits)
  moreover have "\<exists>rest. this_techniques (snd (applyClaudeRules t s)) = this_techniques s @ rest"
    using push_extends by (simp add: applyClaudeRules_def split: prod.splits)
  ultimately show ?thesis by simp
qed

lemma applyGPTRules_keeps:
  "set t \<subseteq> set (fst (applyGPTRules t s)) \<and>
   (\<exists>rest. this_techniques (snd (applyGPTRules t s)) = this_techniques s @ rest)"
  using push_extends by (auto simp: applyGPTRules_def)

lemma applyGeminiRules_keeps:
  "set t \<subseteq> set (fst (applyGeminiRules t s)) \<and>
   (\<exists>rest. this_techniques (snd (applyGeminiRules t s)) = this_techniques s @ rest)"
  using push_extends by (auto simp: applyGeminiRules_def)

lemma applyModelSpecificRules_keeps:
  assumes "plain_key (this_model s)"
  shows "\<exists>t' s'. applyModelSpecificRules t s = Inr (t', s') \<and> set t \<subseteq> set t' \<and>
           (\<exists>rest. this_techniques s' = this_techniques s @ rest)"
proof -
  define f where "f = (case map_of modelRules (this_model s) of Some f \<Rightarrow> f | None \<Rightarrow> applyClaudeRules)"
  have f: "f = applyClaudeRules \<or> f = applyGPTRules \<or> f = applyGeminiRules"
    by (simp add: f_def modelRules_def)
  have a: "applyModelSpecificRules t s = Inr (f t s)"
    using assms by (simp add: applyModelSpecificRules_def dispatch_plain f_def)
  have k: "set t \<subseteq> set (fst (f t s)) \<and>
      (\<exists>rest. this_techniques (snd (f t s)) = this_techniques s @ rest)"
    using f applyClaudeRules_keeps[of t s] applyGPTRules_keeps[of t s] applyGeminiRules_keeps[of t s]
    by (elim disjE) simp_all
  obtain t' s' where p: "f t s = (t', s')" by (cases "f t s")
  with a k show ?thesis by auto
qed

lemma addExamples_keeps:
  "set t \<subseteq> set (fst (addExamples t s)) \<and>
   (\<exists>rest. this_techniques (snd (addExamples t s)) = this_techniques s @ rest)"
  using push_extends by (auto simp: addExamples_def Let_def)

lemma addChainOfThought_keeps:
  "set t \<subseteq> set (fst (addChainOfThought t s)) \<and>
   (\<exists>rest. this_techniques (snd (addChainOfThought t s)) = this_techniques s @ rest)"
  using push_extends by (auto simp: addChainOfThought_def)

lemma enhanceStructure_keeps:
  "(trim t \<noteq> [] \<longrightarrow> trim (fst (enhanceStructure t s)) \<noteq> []) \<and>
   (\<exists>rest. this_techniques (snd (enhanceStructure t s)) = this_techniques s @ rest)"
proof -
  have nb: "trim (replace_all True r (\<lambda>m. w) u) \<noteq> []" if "trim u \<noteq> []" "trim w \<noteq> []" for r w u
    using that by (intro replace_all_nonblank) auto
  have w: "trim ''<role>\<newline>'' \<noteq> []" "trim ''</role>\<newline>\<newline><task>'' \<noteq> []"
    "trim ''</task>\<newline>\<newline><output_format>'' \<noteq> []"
    "trim ''</output_format>\<newline>\<newline><constraints>'' \<noteq> []"
    by code_simp+
  define r4 where "r4 =
     replace_all True (Lit ''[CONSTRAINTS]:'') (\<lambda>m. ''</output_format>\<newline>\<newline><constraints>'')
       (replace_all True (Lit ''[OUTPUT FORMAT]:'') (\<lambda>m. ''</task>\<newline>\<newline><output_format>'')
         (replace_all True (Lit ''[TASK]:'') (\<lambda>m. ''</role>\<newline>\<newline><task>'')
           (replace_all True (Lit ''[ROLE]:'') (\<lambda>m. ''<role>\<newline>'') t)))"
  have e: "fst (enhanceStructure t s) = t \<or> fst (enhanceStructure t s) = r4 \<or>
           fst (enhanceStructure t s) = r4 @ ''\<newline></constraints>''"
    by (simp add: enhanceStructure_def Let_def r4_def)
  have "trim (fst (enhanceStructure t s)) \<noteq> []" if t: "trim t \<noteq> []"
  proof -
    have r4: "trim r4 \<noteq> []" unfolding r4_def using t w by (intro nb)
    then have "trim (r4 @ ''\<newline></constraints>'') \<noteq> []"
      by (rule nonblank_superset) auto
    with r4 t e show ?thesis by auto
  qed
  moreover have "\<exists>rest. this_techniques (snd (enhanceStructure t s)) = this_techniques s @ rest"
    using push_extends by (simp add: enhanceStructure_def Let_def)
  ultimately show ?thesis by blast
qed

lemma stage_6_keeps:
  assumes "trim t \<noteq> []"
  shows "trim (fst (stage_6 lvl t s)) \<noteq> [] \<and>
         (\<exists>rest. this_techniques (snd (stage_6 lvl t s)) = this_techniques s @ rest)"
proof (cases "lvl = ''advanced''")
  case False
  with assms show ?thesis by (simp add: stage_6_def)
next
  case True
  obtain t6 s6 where a: "addExamples t s = (t6, s6)" by (cases "addExamples t s")
  obtain t7 s7 where b: "addChainOfThought t6 s6 = (t7, s7)" by (cases "addChainOfThought t6 s6")
  from addExamples_keeps[of t s] a
  have a1: "set t \<subseteq> set t6" and a2: "\<exists>rest. this_techniques s6 = this_techniques s @ rest"
    by auto
  from nonblank_superset[OF assms a1] have t6: "trim t6 \<noteq> []" .
  from addChainOfThought_keeps[of t6 s6] b
  have b1: "set t6 \<subseteq> set t7" and b2: "\<exists>rest. this_techniques s7 = this_techniques s6 @ rest"
    by auto
  from nonblank_superset[OF t6 b1] have t7: "trim t7 \<noteq> []" .
  from a2 b2 have b3: "\<exists>rest. this_techniques s7 = this_techniques s @ rest" by auto
  from enhanceStructure_keeps[of t7 s7] t7 b3
  have "trim (fst (enhanceStructure t7 s7)) \<noteq> []"
    "\<exists>rest. this_techniques (snd (enhanceStructure t7 s7)) = this_techniques s @ rest"
    by auto
  with True a b show ?thesis by (simp add: stage_6_def)
qed

subsection \<open>The empty text\<close>

lemma removeRedundancy_empty: "removeRedundancy [] s = ([], s)"
proof -
  have "match_all True fillers [] = []" by code_simp
  moreover have "dedupe_text [] = ([], 0)" by code_simp
  ultimately show ?thesis by (simp add: removeRedundancy_def)
qed

lemma improveClarity_empty: "improveClarity [] = []"
  by code_simp

lemma stages_1_2_empty:
  "lvl \<in> {''quick'', ''standard'', ''advanced''} \<Longrightarrow> stages_1_2 lvl [] s = ([], s)"
  by (auto simp: stages_1_2_def removeRedundancy_empty improveClarity_empty)

lemma framework_empty:
  assumes "this_analysis s = getEmptyAnalysis" and "format_description (this_options s) = Inr d"
  shows "\<exists>body. addFrameworkStructure [] s =
           Inr (''[TASK]: '' @ body, push_technique framework_technique_all s)"
proof -
  have j: "''Added: '' @ join '', '' [''Role'', ''Task Header'', ''Output Format'', ''Constraints'']
             = ''Added: Role, Task Header, Output Format, Constraints''"
    by code_simp
  have c: "components (this_analysis s) = components getEmptyAnalysis"
    "altitude (contextEngineering (this_analysis s)) = Unknown"
    using assms(1) by (simp_all add: getEmptyAnalysis_def)
  have "\<exists>body. framework_sections [] s =
          Inr (''[TASK]: '' @ body, [''Role'', ''Task Header'', ''Output Format'', ''Constraints''])"
    using assms(2) c
    by (simp add: framework_sections_def add_role_def add_task_header_def add_output_format_def
          add_constraints_def add_never_def truthy_def getEmptyAnalysis_def)
  then show ?thesis
    using j by (auto simp: addFrameworkStructure_def framework_technique_all_def)
qed

lemma nonblank_task_header: "trim (''[TASK]: '' @ body) \<noteq> []"
proof -
  have "\<not> is_space CHR ''[''" by code_simp
  then show ?thesis by (auto simp: trim_nonempty_iff)
qed

lemma correctAltitude_unknown:
  "altitude (contextEngineering (this_analysis s)) = Unknown \<Longrightarrow> correctAltitude t s = (t, s)"
  by (simp add: correctAltitude_def)

lemma push_analysis [simp]: "this_analysis (push_technique t s) = this_analysis s"
  and push_model [simp]: "this_model (push_technique t s) = this_model s"
  and push_techniques: "this_techniques (push_technique t s) = this_techniques s @ [t]"
  by (simp_all add: push_technique_def)

lemma entry_fields [simp]:
  "this_analysis (optimize_entry this tx a m lvl opts) = a"
  "this_model (optimize_entry this tx a m lvl opts) = m"
  "this_options (optimize_entry this tx a m lvl opts) = opts"
  by (simp_all add: optimize_entry_def)

lemma pipeline_empty_fires:
  assumes "plain_key m" and "format_description opts = Inr d"
    and "lvl = ''standard'' \<or> lvl = ''advanced''"
  shows "\<exists>t s rest. pipeline lvl [] (optimize_entry this [] getEmptyAnalysis m lvl opts) = Inr (t, s) \<and>
           trim t \<noteq> [] \<and> this_techniques s = framework_technique_all # rest"
proof -
  let ?s0 = "optimize_entry this [] getEmptyAnalysis m lvl opts"
  have 12: "stages_1_2 lvl [] ?s0 = ([], ?s0)"
    using assms(3) by (intro stages_1_2_empty) auto
  obtain body where 3: "addFrameworkStructure [] ?s0 =
      Inr (''[TASK]: '' @ body, push_technique framework_technique_all ?s0)"
    using framework_empty[of ?s0 d] assms(2) by auto
  let ?s3 = "push_technique framework_technique_all ?s0"
  have 4: "correctAltitude (''[TASK]: '' @ body) ?s3 = (''[TASK]: '' @ body, ?s3)"
    by (intro correctAltitude_unknown) (simp add: getEmptyAnalysis_def)
  obtain t5 s5 where 5: "applyModelSpecificRules (''[TASK]: '' @ body) ?s3 = Inr (t5, s5)"
    and k5a: "set (''[TASK]: '' @ body) \<subseteq> set t5"
    and k5b: "\<exists>rest. this_techniques s5 = this_techniques ?s3 @ rest"
    using applyModelSpecificRules_keeps[of ?s3 "''[TASK]: '' @ body"] assms(1) by auto
  have t5: "trim t5 \<noteq> []" using nonblank_superset[OF nonblank_task_header k5a] .
  from k5b have s5: "\<exists>rest. this_techniques s5 = framework_technique_all # rest"
    by (simp add: push_techniques)
  have 35: "stages_3_5 lvl [] ?s0 = Inr (t5, s5)"
    using assms(3) 3 4 5 by (auto simp: stages_3_5_def)
  obtain t6 s6 where 6: "stage_6 lvl t5 s5 = (t6, s6)" by (cases "stage_6 lvl t5 s5")
  with stage_6_keeps[OF t5, of lvl s5] s5
  have "trim t6 \<noteq> []" "\<exists>rest. this_techniques s6 = framework_technique_all # rest"
    by auto
  moreover have "pipeline lvl [] ?s0 = Inr (t6, s6)"
    using 12 35 6 by (simp add: pipeline_def)
  ultimately show ?thesis by blast
qed

text \<open>
  Claim C6 says that for the empty text, at every level, \<open>optimize\<close> returns and its
  output stays empty or blank, with no bracketed section inserted, the framework stage
  not firing. The framework stage tests the report only, and in the report of the empty
  text every component is false: at the level \<open>standard\<close>, with the key \<open>claude\<close> and
  the options \<open>{}\<close>, the call returns a text with the sections \<open>[TASK]\<close>, \<open>[ROLE]\<close>,
  \<open>[OUTPUT FORMAT]\<close> and \<open>[CONSTRAINTS]\<close> and records the techniques Framework
  Structure and Claude 4.x Optimization.
\<close>

theorem empty_input_standard_fires:
  "analyze [] ''claude'' = Inr getEmptyAnalysis \<and>
   map_sum id (optimized \<circ> fst)
     (optimize fresh_object [] getEmptyAnalysis ''claude'' ''standard'' default_options)
     = Inr ''[TASK]: [ROLE]: You are an expert assistant focused on delivering high-quality, accurate responses\<newline>\<newline>\<newline>\<newline>[OUTPUT FORMAT]: Markdown format with clear structure.\<newline>\<newline>[CONSTRAINTS]\<newline>\<newline>Note: These constraints are important because they ensure the output meets specific quality and usability standards.\<newline>:\<newline>- Ensure accuracy and relevance\<newline>'' \<and>
   map_sum id (map name \<circ> techniques \<circ> fst)
     (optimize fresh_object [] getEmptyAnalysis ''claude'' ''standard'' default_options)
     = Inr [''Framework Structure'', ''Claude 4.x Optimization'']"
proof -
  have a: "analyze [] ''claude'' = Inr getEmptyAnalysis" by (simp add: analyze_def)
  have p: "map_sum id (\<lambda>p. (fst p, map name (this_techniques (snd p))))
      (pipeline ''standard'' [] (optimize_entry fresh_object [] getEmptyAnalysis ''claude''
         ''standard'' default_options))
     = Inr (''[TASK]: [ROLE]: You are an expert assistant focused on delivering high-quality, accurate responses\<newline>\<newline>\<newline>\<newline>[OUTPUT FORMAT]: Markdown format with clear structure.\<newline>\<newline>[CONSTRAINTS]\<newline>\<newline>Note: These constraints are important because they ensure the output meets specific quality and usability standards.\<newline>:\<newline>- Ensure accuracy and relevance\<newline>'',
            [''Framework Structure'', ''Claude 4.x Optimization''])"
    by code_simp
  then obtain q where q: "pipeline ''standard'' [] (optimize_entry fresh_object [] getEmptyAnalysis
      ''claude'' ''standard'' default_options) = Inr q"
    by (cases "pipeline ''standard'' [] (optimize_entry fresh_object [] getEmptyAnalysis
      ''claude'' ''standard'' default_options)") auto
  with p show ?thesis
    using a by (simp add: optimize_techniques[OF plain_claude] optimize_optimized[OF plain_claude])
qed

text \<open>
  Claim C6, as the code behaves: for the empty text with its report, a model key that
  names no inherited property and options whose format has a description, \<open>optimize\<close>
  returns at each of the three levels. At the level \<open>quick\<close> the output is empty and no
  technique is recorded. At the levels \<open>standard\<close> and \<open>advanced\<close> the framework stage
  fires: the first technique is Framework Structure with the role, the task header, the
  output format and the constraints added, and the output is not blank.
\<close>

theorem empty_input_by_level:
  "plain_key model_key \<and> format_description opts = Inr d \<longrightarrow>
     (\<exists>res s. optimize this [] getEmptyAnalysis model_key ''quick'' opts = Inr (res, s) \<and>
              optimized res = [] \<and> techniques res = []) \<and>
     (\<forall>lvl. lvl = ''standard'' \<or> lvl = ''advanced'' \<longrightarrow>
        (\<exists>res s rest. optimize this [] getEmptyAnalysis model_key lvl opts = Inr (res, s) \<and>
                      trim (optimized res) \<noteq> [] \<and>
                      techniques res = framework_technique_all # rest))"
proof (intro impI conjI allI)
  assume a: "plain_key model_key \<and> format_description opts = Inr d"
  have "pipeline ''quick'' [] (optimize_entry this [] getEmptyAnalysis model_key ''quick'' opts)
          = Inr ([], optimize_entry this [] getEmptyAnalysis model_key ''quick'' opts)"
    by (simp add: pipeline_quick removeRedundancy_empty improveClarity_empty)
  from optimize_returns[OF this] a
  show "\<exists>res s. optimize this [] getEmptyAnalysis model_key ''quick'' opts = Inr (res, s) \<and>
              optimized res = [] \<and> techniques res = []"
    by auto
next
  fix lvl
  assume a: "plain_key model_key \<and> format_description opts = Inr d"
    and l: "lvl = ''standard'' \<or> lvl = ''advanced''"
  from pipeline_empty_fires[of model_key opts d lvl this] a l
  obtain t s rest where
    p: "pipeline lvl [] (optimize_entry this [] getEmptyAnalysis model_key lvl opts) = Inr (t, s)"
    and t: "trim t \<noteq> []" and r: "this_techniques s = framework_technique_all # rest"
    by blast
  from optimize_returns[OF p] a t r
  show "\<exists>res s rest. optimize this [] getEmptyAnalysis model_key lvl opts = Inr (res, s) \<and>
                      trim (optimized res) \<noteq> [] \<and>
                      techniques res = framework_technique_all # rest"
    by auto
qed

theorem empty_input_by_level_witness:
  "plain_key ''claude'' \<and>
   format_description default_options = Inr ''Markdown format with clear structure'' \<and>
   (\<exists>res s. optimize fresh_object [] getEmptyAnalysis ''claude'' ''quick'' default_options
               = Inr (res, s) \<and> optimized res = [] \<and> techniques res = []) \<and>
   (\<exists>res s rest. optimize fresh_object [] getEmptyAnalysis ''claude'' ''standard'' default_options
               = Inr (res, s) \<and> trim (optimized res) \<noteq> [] \<and>
               techniques res = framework_technique_all # rest) \<and>
   (\<exists>res s rest. optimize fresh_object [] getEmptyAnalysis ''claude'' ''advanced'' default_options
               = Inr (res, s) \<and> trim (optimized res) \<noteq> [] \<and>
               techniques res = framework_technique_all # rest)"
proof -
  have d: "format_description default_options = Inr ''Markdown format with clear structure''"
    by code_simp
  note r = empty_input_by_level[of "''claude''" default_options
      "''Markdown format with clear structure''" fresh_object]
  from r plain_claude d
  have q: "\<exists>res s. optimize fresh_object [] getEmptyAnalysis ''claude'' ''quick'' default_options
               = Inr (res, s) \<and> optimized res = [] \<and> techniques res = []"
    and l: "\<forall>lvl. lvl = ''standard'' \<or> lvl = ''advanced'' \<longrightarrow>
             (\<exists>res s rest. optimize fresh_object [] getEmptyAnalysis ''claude'' lvl default_options
                = Inr (res, s) \<and> trim (optimized res) \<noteq> [] \<and>
                techniques res = framework_technique_all # rest)"
    by blast+
  from l have "\<exists>res s rest. optimize fresh_object [] getEmptyAnalysis ''claude'' ''standard'' default_options
               = Inr (res, s) \<and> trim (optimized res) \<noteq> [] \<and>
               techniques res = framework_technique_all # rest"
    by blast
  moreover from l have "\<exists>res s rest. optimize fresh_object [] getEmptyAnalysis ''claude'' ''advanced'' default_options
               = Inr (res, s) \<and> trim (optimized res) \<noteq> [] \<and>
               techniques res = framework_technique_all # rest"
    by blast
  ultimately show ?thesis using plain_claude d q by blast
qed

subsection \<open>What the stages test\<close>

text \<open>
  Every stage leaves the fields of the object as they are, but for the list of
  techniques, to which it appends. What a stage appends and the text it returns are
  the same for every object, where the stage does not read the report.
\<close>

lemma fresh_techniques [simp]: "this_techniques fresh_object = []"
  by (simp add: fresh_object_def)






lemma enhanceStructure_run:
  "enhanceStructure t s =
     (fst (enhanceStructure t fresh_object),
      s\<lparr> this_techniques := this_techniques s @ this_techniques (snd (enhanceStructure t fresh_object)) \<rparr>)"
  by (simp add: enhanceStructure_def Let_def push_technique_def)

































end
